theory Spec2Isabelle
  imports Complex_Main "HOL-Library.Word" "HOL-Library.List_Lexorder" "HOL-Library.Multiset"
begin

unbundle bit_operations_syntax

section \<open>The worker of changer-mvp: validation of Telegram Mini App initData\<close>

text \<open>
  The theory embeds \<^verbatim>\<open>src/worker/src/index.js\<close>: \<^verbatim>\<open>handleValidate\<close> and the
  helpers it calls (\<^verbatim>\<open>parseInitData\<close>, \<^verbatim>\<open>buildDataCheckString\<close>,
  \<^verbatim>\<open>telegramWebAppSecretKey\<close>, \<^verbatim>\<open>hmacHex\<close>, \<^verbatim>\<open>encodeUtf8\<close>, \<^verbatim>\<open>toHex\<close>,
  \<^verbatim>\<open>timingSafeEqual\<close>, \<^verbatim>\<open>json\<close>, \<^verbatim>\<open>cors\<close>).
\<close>

subsection \<open>JavaScript values\<close>

text \<open>
  A JavaScript string is a sequence of UTF-16 code units: \<^verbatim>\<open>length\<close> counts them,
  \<^verbatim>\<open>charCodeAt\<close> reads one, and \<^verbatim>\<open><\<close> on two strings compares them code unit by
  code unit, a proper prefix being smaller. That is the lexicographic order of
  \<open>16 word list\<close>. \<open>js\<close> writes an ASCII literal of the source as such a string.
\<close>

type_synonym jsstring = "16 word list"

type_synonym bytes = "8 word list"

definition js :: "string \<Rightarrow> jsstring" where
  "js s = map (\<lambda>c. of_char c) s"

text \<open>
  A JavaScript number is an IEEE double: NaN, an infinity, or a finite double, which is
  modelled by the real number it denotes. The difference of two finite doubles is the
  exact difference rounded to a double again: \<open>js_sub\<close> takes the rounding as its first
  argument (\<open>rnd\<close> gives the double nearest to a real number, or an infinity when the
  number is beyond the range of the doubles). Comparisons are exact, and any comparison
  with NaN is false.
\<close>

datatype jsnum = NaN | PosInf | NegInf | Fin real

fun js_sub :: "(real \<Rightarrow> jsnum) \<Rightarrow> jsnum \<Rightarrow> jsnum \<Rightarrow> jsnum" where
  "js_sub rnd NaN _ = NaN"
| "js_sub rnd _ NaN = NaN"
| "js_sub rnd (Fin a) (Fin b) = rnd (a - b)"
| "js_sub rnd (Fin a) PosInf = NegInf"
| "js_sub rnd (Fin a) NegInf = PosInf"
| "js_sub rnd PosInf PosInf = NaN"
| "js_sub rnd PosInf _ = PosInf"
| "js_sub rnd NegInf NegInf = NaN"
| "js_sub rnd NegInf _ = NegInf"

fun js_gt :: "jsnum \<Rightarrow> jsnum \<Rightarrow> bool" where
  "js_gt NaN _ = False"
| "js_gt _ NaN = False"
| "js_gt (Fin a) (Fin b) = (a > b)"
| "js_gt (Fin a) PosInf = False"
| "js_gt (Fin a) NegInf = True"
| "js_gt PosInf PosInf = False"
| "js_gt PosInf _ = True"
| "js_gt NegInf _ = False"

text \<open>
  The values \<^verbatim>\<open>JSON.parse\<close> returns and the object literals the worker hands to
  \<^verbatim>\<open>JSON.stringify\<close>. An object is the list of its own properties in insertion order;
  a property the literal sets to \<^verbatim>\<open>undefined\<close> is kept with the value \<open>JUndefined\<close>.
\<close>

datatype jsvalue =
    JUndefined
  | JNull
  | JBool bool
  | JNum jsnum
  | JStr jsstring
  | JArr "jsvalue list"
  | JObj "(jsstring \<times> jsvalue) list"

fun truthy :: "jsvalue \<Rightarrow> bool" where
  "truthy JUndefined = False"
| "truthy JNull = False"
| "truthy (JBool b) = b"
| "truthy (JNum n) = (n \<noteq> NaN \<and> n \<noteq> Fin 0)"
| "truthy (JStr s) = (s \<noteq> [])"
| "truthy (JArr _) = True"
| "truthy (JObj _) = True"

text \<open>
  \<^verbatim>\<open>v.name\<close> for a value that is neither null nor undefined. The worker reads only
  \<^verbatim>\<open>initData\<close>, \<^verbatim>\<open>id\<close>, \<^verbatim>\<open>first_name\<close>, \<^verbatim>\<open>last_name\<close>, \<^verbatim>\<open>username\<close> and
  \<^verbatim>\<open>language_code\<close>: none of them is a property of the prototypes of strings, numbers,
  booleans, arrays or objects, so only an object's own property can answer. The names of
  an object's properties are distinct (\<^verbatim>\<open>JSON.parse\<close> keeps the last of two equal names).
\<close>

fun get_prop :: "jsvalue \<Rightarrow> jsstring \<Rightarrow> jsvalue" where
  "get_prop (JObj props) name = (case map_of props name of None \<Rightarrow> JUndefined | Some v \<Rightarrow> v)"
| "get_prop _ name = JUndefined"

text \<open>\<^verbatim>\<open>v?.name\<close>: undefined when \<open>v\<close> is null or undefined.\<close>

fun optional_chain :: "jsvalue \<Rightarrow> jsstring \<Rightarrow> jsvalue" where
  "optional_chain JUndefined name = JUndefined"
| "optional_chain JNull name = JUndefined"
| "optional_chain v name = get_prop v name"

text \<open>\<^verbatim>\<open>x || d\<close> for \<open>x\<close> a string or null: the empty string is falsy too.\<close>

fun or_default :: "jsstring option \<Rightarrow> jsstring \<Rightarrow> jsstring" where
  "or_default None d = d"
| "or_default (Some x) d = (if x = [] then d else x)"

subsection \<open>The platform\<close>

text \<open>
  The worker runs on the Workers runtime and calls its built-in functions. They are not
  code of the repository; the model takes them as a parameter, so every theorem holds
  for whatever these functions compute:
  \<^item> \<open>form_decode\<close>: the decoding \<^verbatim>\<open>URLSearchParams\<close> applies to a name or a value
    (\<^verbatim>\<open>+\<close> to space, percent-decoding, UTF-8 decoding);
  \<^item> \<open>Number\<close>: the conversion of a string to a number;
  \<^item> \<open>JSON_parse\<close>: \<open>None\<close> when \<^verbatim>\<open>JSON.parse\<close> throws a SyntaxError;
  \<^item> \<open>TextEncoder_encode\<close>: the UTF-8 bytes of a string;
  \<^item> \<open>HMAC_SHA256 key message\<close>: what \<^verbatim>\<open>crypto.subtle.sign("HMAC", key, message)\<close>
    returns for a key imported with hash SHA-256;
  \<^item> \<open>Date_now\<close>: the clock, in milliseconds, when the request is handled;
  \<^item> \<open>double_of_real\<close>: the rounding of the arithmetic: the double nearest to a real
    number, an infinity beyond the range. A theorem that needs a number to be a double
    says so: \<open>double_of_real P x = Fin x\<close>.
\<close>

record platform =
  form_decode :: "jsstring \<Rightarrow> jsstring"
  Number :: "jsstring \<Rightarrow> jsnum"
  JSON_parse :: "jsstring \<Rightarrow> jsvalue option"
  TextEncoder_encode :: "jsstring \<Rightarrow> bytes"
  HMAC_SHA256 :: "bytes \<Rightarrow> bytes \<Rightarrow> bytes"
  Date_now :: int
  double_of_real :: "real \<Rightarrow> jsnum"

text \<open>
  The request as \<^verbatim>\<open>handleValidate\<close> sees it: what \<^verbatim>\<open>request.json()\<close> gives, \<open>None\<close>
  when it throws. The environment holds the secret, if it is set.
\<close>

record request =
  request_json :: "jsvalue option"

record env =
  BOT_TOKEN :: "jsstring option"

record response =
  resp_status :: nat
  resp_headers :: "(jsstring \<times> jsstring) list"
  resp_body :: jsvalue

datatype exn = DataError

definition VALID_AUTH_WINDOW :: real where
  "VALID_AUTH_WINDOW = 300"

subsection \<open>json and cors\<close>

text \<open>
  \<^verbatim>\<open>
  function json(obj, status = 200) {
    return new Response(JSON.stringify(obj), {
      status, headers: { "Content-Type": "application/json; charset=utf-8" } });
  }
  function cors(resp) {
    const headers = new Headers(resp.headers);
    headers.set("Access-Control-Allow-Origin", "*");
    headers.set("Access-Control-Allow-Methods", "GET,POST,OPTIONS");
    headers.set("Access-Control-Allow-Headers", "Content-Type");
    return new Response(resp.body, { status: resp.status, headers });
  }
  \<close>
  The body of a response is kept as the value given to \<^verbatim>\<open>JSON.stringify\<close>.
\<close>

definition headers_set ::
  "(jsstring \<times> jsstring) list \<Rightarrow> jsstring \<Rightarrow> jsstring \<Rightarrow> (jsstring \<times> jsstring) list" where
  "headers_set hs name v =
     (if name \<in> fst ` set hs
      then map (\<lambda>(n, old). if n = name then (n, v) else (n, old)) hs
      else hs @ [(name, v)])"

definition json :: "jsvalue \<Rightarrow> nat \<Rightarrow> response" where
  "json obj st =
     \<lparr>resp_status = st,
      resp_headers = [(js ''Content-Type'', js ''application/json; charset=utf-8'')],
      resp_body = obj\<rparr>"

definition cors :: "response \<Rightarrow> response" where
  "cors resp =
     (let h0 = resp_headers resp;
          h1 = headers_set h0 (js ''Access-Control-Allow-Origin'') (js ''*'');
          h2 = headers_set h1 (js ''Access-Control-Allow-Methods'') (js ''GET,POST,OPTIONS'');
          h3 = headers_set h2 (js ''Access-Control-Allow-Headers'') (js ''Content-Type'')
      in \<lparr>resp_status = resp_status resp, resp_headers = h3, resp_body = resp_body resp\<rparr>)"

subsection \<open>parseInitData\<close>

text \<open>
  \<^verbatim>\<open>
  function parseInitData(initData) {
    return new URLSearchParams(initData);
  }
  \<close>
  The constructor drops one leading \<^verbatim>\<open>?\<close>, splits the string at every \<^verbatim>\<open>&\<close>, skips
  the empty pieces, splits each piece at its first \<^verbatim>\<open>=\<close> (a piece without \<^verbatim>\<open>=\<close> has
  the empty value) and decodes name and value. It never throws on a string. The object
  is the list of pairs in the order of the input; \<^verbatim>\<open>get\<close> returns the value of the first
  pair with the name, or null (\<open>None\<close>); \<^verbatim>\<open>entries()\<close> runs through the list.
\<close>

type_synonym params = "(jsstring \<times> jsstring) list"

fun split_on :: "'a \<Rightarrow> 'a list \<Rightarrow> 'a list list" where
  "split_on sep [] = [[]]"
| "split_on sep (x # xs) =
     (let rest = split_on sep xs
      in if x = sep then [] # rest else (x # hd rest) # tl rest)"

definition URLSearchParams :: "platform \<Rightarrow> jsstring \<Rightarrow> params" where
  "URLSearchParams P init =
     (let query = (case init of [] \<Rightarrow> [] | c # cs \<Rightarrow> if c = 0x3F then cs else init)
      in map (\<lambda>piece.
                let name = takeWhile (\<lambda>c. c \<noteq> 0x3D) piece;
                    v = drop (length name + 1) piece
                in (form_decode P name, form_decode P v))
             (filter (\<lambda>piece. piece \<noteq> []) (split_on 0x26 query)))"

definition params_get :: "params \<Rightarrow> jsstring \<Rightarrow> jsstring option" where
  "params_get ps name = map_of ps name"

definition parseInitData :: "platform \<Rightarrow> jsstring \<Rightarrow> params" where
  "parseInitData P initData = URLSearchParams P initData"

subsection \<open>buildDataCheckString\<close>

text \<open>
  \<^verbatim>\<open>
  function buildDataCheckString(params) {
    const entries = [];
    for (const [k, v] of params.entries()) {
      if (k === "hash") continue;
      entries.push([k, v]);
    }
    entries.sort((a, b) => (a[0] < b[0] ? -1 : a[0] > b[0] ? 1 : 0));
    return entries.map(([k, v]) => `${k}=${v}`).join("\n");
  }
  \<close>
  \<^verbatim>\<open>Array.prototype.sort\<close> is stable. With a comparator that is a total preorder its
  result is the only stable arrangement, whatever algorithm the engine runs; here it is
  computed by insertion, each element going behind the ones that do not compare greater.
\<close>

fun push_entries :: "params \<Rightarrow> params \<Rightarrow> params" where
  "push_entries entries [] = entries"
| "push_entries entries ((k, v) # rest) =
     (if k = js ''hash'' then push_entries entries rest
      else push_entries (entries @ [(k, v)]) rest)"

definition compare_entries :: "jsstring \<times> jsstring \<Rightarrow> jsstring \<times> jsstring \<Rightarrow> int" where
  "compare_entries a b = (if fst a < fst b then -1 else if fst a > fst b then 1 else 0)"

fun insert_sorted :: "('a \<Rightarrow> 'a \<Rightarrow> int) \<Rightarrow> 'a \<Rightarrow> 'a list \<Rightarrow> 'a list" where
  "insert_sorted cmp x [] = [x]"
| "insert_sorted cmp x (y # ys) =
     (if cmp x y < 0 then x # y # ys else y # insert_sorted cmp x ys)"

definition array_sort :: "('a \<Rightarrow> 'a \<Rightarrow> int) \<Rightarrow> 'a list \<Rightarrow> 'a list" where
  "array_sort cmp xs = foldl (\<lambda>sorted x. insert_sorted cmp x sorted) [] xs"

fun array_join :: "jsstring \<Rightarrow> jsstring list \<Rightarrow> jsstring" where
  "array_join sep [] = []"
| "array_join sep [x] = x"
| "array_join sep (x # y # ys) = x @ sep @ array_join sep (y # ys)"

definition render_entry :: "jsstring \<times> jsstring \<Rightarrow> jsstring" where
  "render_entry e = fst e @ js ''='' @ snd e"

definition sorted_entries :: "params \<Rightarrow> params" where
  "sorted_entries ps = array_sort compare_entries (push_entries [] ps)"

definition buildDataCheckString :: "params \<Rightarrow> jsstring" where
  "buildDataCheckString ps = array_join [0x0A] (map render_entry (sorted_entries ps))"

subsection \<open>Keys and signatures\<close>

text \<open>
  \<^verbatim>\<open>
  async function telegramWebAppSecretKey(botToken) {
    const key = await crypto.subtle.importKey("raw", encodeUtf8(botToken),
      { name: "HMAC", hash: "SHA-256" }, false, ["sign"]);
    const sig = await crypto.subtle.sign("HMAC", key, encodeUtf8("WebAppData"));
    return new Uint8Array(sig);
  }
  async function hmacHex(keyBytes, data) {
    const key = await crypto.subtle.importKey("raw", keyBytes,
      { name: "HMAC", hash: "SHA-256" }, false, ["sign"]);
    const sig = await crypto.subtle.sign("HMAC", key, encodeUtf8(data));
    return toHex(new Uint8Array(sig));
  }
  function encodeUtf8(s) { return new TextEncoder().encode(s); }
  function toHex(bytes) {
    return Array.from(bytes).map(b => b.toString(16).padStart(2, "0")).join("");
  }
  \<close>
  \<^verbatim>\<open>importKey\<close> rejects (DataError) a raw HMAC key of length zero; the exception is not
  caught in \<^verbatim>\<open>handleValidate\<close>.
\<close>

definition encodeUtf8 :: "platform \<Rightarrow> jsstring \<Rightarrow> bytes" where
  "encodeUtf8 P s = TextEncoder_encode P s"

definition importKey :: "bytes \<Rightarrow> exn + bytes" where
  "importKey raw = (if raw = [] then Inl DataError else Inr raw)"

definition telegramWebAppSecretKey :: "platform \<Rightarrow> jsstring \<Rightarrow> exn + bytes" where
  "telegramWebAppSecretKey P botToken =
     (case importKey (encodeUtf8 P botToken) of
        Inl e \<Rightarrow> Inl e
      | Inr key \<Rightarrow> Inr (HMAC_SHA256 P key (encodeUtf8 P (js ''WebAppData''))))"

definition hex_digit :: "nat \<Rightarrow> 16 word" where
  "hex_digit d = (if d < 10 then 0x30 + of_nat d else 0x61 + of_nat (d - 10))"

definition toString16 :: "8 word \<Rightarrow> jsstring" where
  "toString16 b =
     (if unat b < 16 then [hex_digit (unat b)]
      else [hex_digit (unat b div 16), hex_digit (unat b mod 16)])"

definition padStart :: "jsstring \<Rightarrow> nat \<Rightarrow> 16 word \<Rightarrow> jsstring" where
  "padStart s n c = replicate (n - length s) c @ s"

definition toHex :: "bytes \<Rightarrow> jsstring" where
  "toHex bs = array_join [] (map (\<lambda>b. padStart (toString16 b) 2 0x30) bs)"

definition hmacHex :: "platform \<Rightarrow> bytes \<Rightarrow> jsstring \<Rightarrow> exn + jsstring" where
  "hmacHex P keyBytes data =
     (case importKey keyBytes of
        Inl e \<Rightarrow> Inl e
      | Inr key \<Rightarrow> Inr (toHex (HMAC_SHA256 P key (encodeUtf8 P data))))"

subsection \<open>timingSafeEqual\<close>

text \<open>
  \<^verbatim>\<open>
  function timingSafeEqual(a, b) {
    if (a.length !== b.length) return false;
    let res = 0;
    for (let i = 0; i < a.length; i++) res |= a.charCodeAt(i) ^ b.charCodeAt(i);
    return res === 0;
  }
  \<close>
  \<^verbatim>\<open>charCodeAt\<close> is NaN out of range, and the bitwise operators work on the 32-bit
  integer of their operands (NaN becomes 0). The loop state carries, beside \<open>res\<close>, the
  list of the positions the body has read: it is a record of the run and decides nothing.
\<close>

definition charCodeAt :: "jsstring \<Rightarrow> nat \<Rightarrow> 16 word option" where
  "charCodeAt s i = (if i < length s then Some (s ! i) else None)"

definition ToInt32 :: "16 word option \<Rightarrow> 32 word" where
  "ToInt32 c = (case c of None \<Rightarrow> 0 | Some u \<Rightarrow> ucast u)"

function timingSafeEqual_loop ::
  "jsstring \<Rightarrow> jsstring \<Rightarrow> nat \<Rightarrow> 32 word \<times> nat list \<Rightarrow> 32 word \<times> nat list" where
  "timingSafeEqual_loop a b i (res, seen) =
     (if i < length a
      then timingSafeEqual_loop a b (i + 1)
             (res OR (ToInt32 (charCodeAt a i) XOR ToInt32 (charCodeAt b i)), seen @ [i])
      else (res, seen))"
  by pat_completeness auto
termination
  by (relation "measure (\<lambda>(a, b, i, st). length a - i)") auto

declare timingSafeEqual_loop.simps [simp del]

definition timingSafeEqual_run :: "jsstring \<Rightarrow> jsstring \<Rightarrow> bool \<times> nat list" where
  "timingSafeEqual_run a b =
     (if length a \<noteq> length b then (False, [])
      else let (res, seen) = timingSafeEqual_loop a b 0 (0, []) in (res = 0, seen))"

definition timingSafeEqual :: "jsstring \<Rightarrow> jsstring \<Rightarrow> bool" where
  "timingSafeEqual a b = fst (timingSafeEqual_run a b)"

subsection \<open>handleValidate\<close>

text \<open>
  \<^verbatim>\<open>cors(json({ ok: false, error: code }, status))\<close>, the shape of every rejection.
\<close>

definition reject :: "string \<Rightarrow> nat \<Rightarrow> exn + response" where
  "reject code st =
     Inr (cors (json (JObj [(js ''ok'', JBool False), (js ''error'', JStr (js code))]) st))"

text \<open>
  \<^verbatim>\<open>
  let user = null;
  try {
    user = parsed.get("user") ? JSON.parse(parsed.get("user")) : null;
  } catch {
    user = null;
  }
  \<close>
\<close>

definition parse_user :: "platform \<Rightarrow> params \<Rightarrow> jsvalue" where
  "parse_user P parsed =
     (case params_get parsed (js ''user'') of
        None \<Rightarrow> JNull
      | Some u \<Rightarrow>
          if u = [] then JNull
          else (case JSON_parse P u of None \<Rightarrow> JNull | Some v \<Rightarrow> v))"

text \<open>
  \<^verbatim>\<open>
  return cors(json({
    ok: true,
    user: user ? { id: user.id, first_name: user.first_name, last_name: user.last_name,
                   username: user.username, language_code: user.language_code } : null,
    auth_date: authDate
  }));
  \<close>
\<close>

definition user_claims :: "jsvalue \<Rightarrow> jsvalue" where
  "user_claims user =
     (if truthy user
      then JObj [(js ''id'', get_prop user (js ''id'')),
                 (js ''first_name'', get_prop user (js ''first_name'')),
                 (js ''last_name'', get_prop user (js ''last_name'')),
                 (js ''username'', get_prop user (js ''username'')),
                 (js ''language_code'', get_prop user (js ''language_code''))]
      else JNull)"

definition accept :: "jsvalue \<Rightarrow> jsnum \<Rightarrow> exn + response" where
  "accept user authDate =
     Inr (cors (json (JObj [(js ''ok'', JBool True),
                            (js ''user'', user_claims user),
                            (js ''auth_date'', JNum authDate)]) 200))"

text \<open>
  Lines 60 to 103 of \<^verbatim>\<open>handleValidate\<close>, as a function of the secret and of the
  initData string: what is left once the configuration and the request body are checked.
  \<^verbatim>\<open>
  const parsed = parseInitData(initData);
  const hash = parsed.get("hash");
  const authDate = Number(parsed.get("auth_date") || "0");
  if (!hash) return cors(json({ ok: false, error: "HASH_MISSING" }, 400));
  const now = Math.floor(Date.now() / 1000);
  if (now - authDate > VALID_AUTH_WINDOW)
    return cors(json({ ok: false, error: "DATA_EXPIRED" }, 401));
  const dataCheckString = buildDataCheckString(parsed);
  const secretKey = await telegramWebAppSecretKey(env.BOT_TOKEN);
  const expectedHash = await hmacHex(secretKey, dataCheckString);
  if (!timingSafeEqual(hash, expectedHash))
    return cors(json({ ok: false, error: "INVALID_SIGNATURE" }, 401));
  \<close>
  followed by the extraction of the user and the answer shown above.
\<close>

definition verify :: "platform \<Rightarrow> jsstring \<Rightarrow> jsstring \<Rightarrow> exn + response" where
  "verify P botToken initData =
     (let parsed = parseInitData P initData;
          hash = params_get parsed (js ''hash'');
          authDate = Number P (or_default (params_get parsed (js ''auth_date'')) (js ''0''))
      in (case hash of
            None \<Rightarrow> reject ''HASH_MISSING'' 400
          | Some h \<Rightarrow>
              if h = [] then reject ''HASH_MISSING'' 400
              else
                (let now = Date_now P div 1000
                 in if js_gt (js_sub (double_of_real P) (Fin (of_int now)) authDate)
                             (Fin VALID_AUTH_WINDOW)
                    then reject ''DATA_EXPIRED'' 401
                    else
                      (let dataCheckString = buildDataCheckString parsed
                       in (case telegramWebAppSecretKey P botToken of
                             Inl e \<Rightarrow> Inl e
                           | Inr secretKey \<Rightarrow>
                               (case hmacHex P secretKey dataCheckString of
                                  Inl e \<Rightarrow> Inl e
                                | Inr expectedHash \<Rightarrow>
                                    if \<not> timingSafeEqual h expectedHash
                                    then reject ''INVALID_SIGNATURE'' 401
                                    else accept (parse_user P parsed) authDate))))))"

text \<open>
  \<^verbatim>\<open>
  async function handleValidate(request, env) {
    if (!env.BOT_TOKEN) return cors(json({ ok: false, error: "SERVER_CONFIG_ERROR" }, 500));
    let body;
    try { body = await request.json(); }
    catch { return cors(json({ ok: false, error: "INVALID_JSON" }, 400)); }
    const initData = body?.initData;
    if (!initData || typeof initData !== "string")
      return cors(json({ ok: false, error: "INIT_DATA_REQUIRED" }, 400));
    ...
  }
  \<close>
\<close>

definition handleValidate :: "platform \<Rightarrow> request \<Rightarrow> env \<Rightarrow> exn + response" where
  "handleValidate P request env =
     (case BOT_TOKEN env of
        None \<Rightarrow> reject ''SERVER_CONFIG_ERROR'' 500
      | Some botToken \<Rightarrow>
          if botToken = [] then reject ''SERVER_CONFIG_ERROR'' 500
          else
            (case request_json request of
               None \<Rightarrow> reject ''INVALID_JSON'' 400
             | Some b \<Rightarrow>
                 (case optional_chain b (js ''initData'') of
                    JStr initData \<Rightarrow>
                      if initData = [] then reject ''INIT_DATA_REQUIRED'' 400
                      else verify P botToken initData
                  | _ \<Rightarrow> reject ''INIT_DATA_REQUIRED'' 400)))"

subsection \<open>Vocabulary of the statements\<close>

text \<open>
  The request carries the initData string and the environment the secret: the checks of
  the configuration and of the body pass, so that \<^verbatim>\<open>handleValidate\<close> goes on to parse.
\<close>

definition carries :: "request \<Rightarrow> env \<Rightarrow> jsstring \<Rightarrow> jsstring \<Rightarrow> bool" where
  "carries request env botToken initData =
     (BOT_TOKEN env = Some botToken \<and> botToken \<noteq> [] \<and>
      (case request_json request of
         None \<Rightarrow> False
       | Some b \<Rightarrow> optional_chain b (js ''initData'') = JStr initData) \<and>
      initData \<noteq> [])"

text \<open>The value the worker reads as \<^verbatim>\<open>authDate\<close>, and its test \<^verbatim>\<open>now - authDate > 300\<close>.\<close>

definition auth_date_of :: "platform \<Rightarrow> params \<Rightarrow> jsnum" where
  "auth_date_of P ps = Number P (or_default (params_get ps (js ''auth_date'')) (js ''0''))"

definition stale :: "platform \<Rightarrow> jsnum \<Rightarrow> bool" where
  "stale P authDate =
     js_gt (js_sub (double_of_real P) (Fin (of_int (Date_now P div 1000))) authDate)
           (Fin VALID_AUTH_WINDOW)"

text \<open>
  The signature of a trusted signer, in the words of the specification: the derived key is
  HMAC-SHA256 with the shared secret as key over the message \<^verbatim>\<open>WebAppData\<close>, and the
  signature is the lowercase hexadecimal form of HMAC-SHA256 with the derived key over
  the canonical string.
\<close>

definition lowercase_hex :: "bytes \<Rightarrow> jsstring" where
  "lowercase_hex bs =
     concat (map (\<lambda>b. [js ''0123456789abcdef'' ! (unat b div 16),
                        js ''0123456789abcdef'' ! (unat b mod 16)]) bs)"

definition derived_key :: "platform \<Rightarrow> jsstring \<Rightarrow> bytes" where
  "derived_key P secret =
     HMAC_SHA256 P (TextEncoder_encode P secret) (TextEncoder_encode P (js ''WebAppData''))"

definition expected_signature :: "platform \<Rightarrow> jsstring \<Rightarrow> params \<Rightarrow> jsstring" where
  "expected_signature P secret ps =
     lowercase_hex
       (HMAC_SHA256 P (derived_key P secret) (TextEncoder_encode P (buildDataCheckString ps)))"

text \<open>Both keys have at least one byte, so \<^verbatim>\<open>importKey\<close> takes them.\<close>

definition keys_importable :: "platform \<Rightarrow> jsstring \<Rightarrow> bool" where
  "keys_importable P secret =
     (TextEncoder_encode P secret \<noteq> [] \<and> derived_key P secret \<noteq> [])"

text \<open>The value of the first pair with the name, if there is one.\<close>

definition first_value :: "params \<Rightarrow> jsstring \<Rightarrow> jsstring option" where
  "first_value ps name =
     (case filter (\<lambda>e. fst e = name) ps of [] \<Rightarrow> None | e # _ \<Rightarrow> Some (snd e))"

text \<open>One character of a string replaced by a different one.\<close>

definition mutate_char :: "jsstring \<Rightarrow> nat \<Rightarrow> 16 word \<Rightarrow> jsstring" where
  "mutate_char v i c = v[i := c]"

text \<open>Two pairs with the same key and values of the same length.\<close>

definition same_shape :: "jsstring \<times> jsstring \<Rightarrow> jsstring \<times> jsstring \<Rightarrow> bool" where
  "same_shape a b = (fst a = fst b \<and> length (snd a) = length (snd b))"

subsection \<open>A platform for the examples\<close>

text \<open>
  The examples run the model on a concrete platform. Its functions are the built-in ones
  on the inputs of the examples: a name or value without \<^verbatim>\<open>+\<close> and \<^verbatim>\<open>%\<close> decodes to
  itself, \<^verbatim>\<open>Number\<close> of a string of decimal digits is its value, ASCII text is its own
  UTF-8, and of the two user texts the first is the JSON of \<open>example_user\<close> and the
  second is no JSON. The keyed hash is a checksum standing in for HMAC-SHA256: the
  theorems hold for every keyed hash, and the examples only need one to compute with.
  The clock shows 1700000100 seconds. The differences the examples compute are integers
  far below \<open>2^53\<close>, which are doubles, so the rounding leaves them as they are.
\<close>

definition example_Number :: "jsstring \<Rightarrow> jsnum" where
  "example_Number s =
     (if s \<noteq> [] \<and> list_all (\<lambda>c. 0x30 \<le> c \<and> c \<le> 0x39) s
      then Fin (of_int (foldl (\<lambda>n c. 10 * n + uint (c - 0x30)) 0 s))
      else NaN)"

definition example_user_text :: jsstring where
  \<open>example_user_text = js ''{"id":7,"first_name":"Ann","is_bot":false}''\<close>

definition example_user :: jsvalue where
  "example_user =
     JObj [(js ''id'', JNum (Fin 7)),
           (js ''first_name'', JStr (js ''Ann'')),
           (js ''is_bot'', JBool False)]"

definition example_JSON_parse :: "jsstring \<Rightarrow> jsvalue option" where
  "example_JSON_parse s = (if s = example_user_text then Some example_user else None)"

definition example_HMAC :: "bytes \<Rightarrow> bytes \<Rightarrow> bytes" where
  "example_HMAC key msg = [foldl (+) 0 key, foldl (+) 0 msg]"

definition example_platform :: platform where
  "example_platform =
     \<lparr>form_decode = (\<lambda>s. s),
      Number = example_Number,
      JSON_parse = example_JSON_parse,
      TextEncoder_encode = map ucast,
      HMAC_SHA256 = example_HMAC,
      Date_now = 1700000100000,
      double_of_real = Fin\<rparr>"

definition example_env :: env where
  "example_env = \<lparr>BOT_TOKEN = Some (js ''testtoken'')\<rparr>"

definition example_request :: "jsstring \<Rightarrow> request" where
  "example_request initData = \<lparr>request_json = Some (JObj [(js ''initData'', JStr initData)])\<rparr>"

text \<open>
  Payloads of the examples, signed for the secret \<^verbatim>\<open>testtoken\<close> with the keyed hash of
  the example platform. The first is 100 seconds old on the example clock.
\<close>

definition payload_fresh :: jsstring where
  "payload_fresh = js ''auth_date=1700000000&query_id=AA&hash=9aff''"

definition payload_at_limit :: jsstring where
  "payload_at_limit = js ''auth_date=1699999800&query_id=AA&hash=9aff''"

definition payload_past_limit :: jsstring where
  "payload_past_limit = js ''auth_date=1699999799&query_id=AA&hash=9a44''"

definition payload_forged_stale :: jsstring where
  "payload_forged_stale = js ''auth_date=1600000000&query_id=AA&hash=0000''"

definition payload_forged_fresh :: jsstring where
  "payload_forged_fresh = js ''auth_date=1700000000&query_id=AA&hash=0000''"

text \<open>
  Payloads with a repeated key. The first two hold the same pairs, the two pairs of the
  key \<^verbatim>\<open>a\<close> in opposite orders; the next two hold the same pairs with the pairs of
  \<^verbatim>\<open>a\<close> in the same order. The last repeats \<^verbatim>\<open>auth_date\<close> and \<^verbatim>\<open>hash\<close>, its first
  hash being the signature of its canonical string.
\<close>

definition payload_a12 :: jsstring where
  "payload_a12 = js ''a=1&a=2&hash=00''"

definition payload_a21 :: jsstring where
  "payload_a21 = js ''a=2&hash=00&a=1''"

definition payload_ba12 :: jsstring where
  "payload_ba12 = js ''b=1&a=1&a=2&hash=00''"

definition payload_a1b2 :: jsstring where
  "payload_a1b2 = js ''a=1&hash=ff&b=1&a=2''"

definition payload_repeated :: jsstring where
  "payload_repeated = js ''auth_date=1700000000&hash=9a2a&auth_date=5&query_id=AA&hash=zz''"

text \<open>
  A string that yields no pair at all, a payload whose user field is no JSON, and a payload
  whose user field is the JSON of \<open>example_user\<close>; the last two are signed.
\<close>

definition payload_no_pairs :: jsstring where
  "payload_no_pairs = js ''&&''"

definition payload_bad_user :: jsstring where
  "payload_bad_user = js ''auth_date=1700000000&query_id=AA&user={oops&hash=9a41''"

definition payload_with_user :: jsstring where
  \<open>payload_with_user =
     js ''auth_date=1700000000&query_id=AA&user={"id":7,"first_name":"Ann","is_bot":false}&hash=9ae7''\<close>

text \<open>
  \<open>payload_fresh\<close> with one character replaced after signing: the first digit of
  \<^verbatim>\<open>auth_date\<close> in the first, the last letter of \<^verbatim>\<open>query_id\<close> in the second.
\<close>

definition payload_backdated :: jsstring where
  "payload_backdated = js ''auth_date=0700000000&query_id=AA&hash=9aff''"

definition payload_altered :: jsstring where
  "payload_altered = js ''auth_date=1700000000&query_id=AB&hash=9aff''"

text \<open>The example platform 400 seconds later: the clock shows 1700000500 seconds.\<close>

definition late_platform :: platform where
  "late_platform = example_platform\<lparr>Date_now := 1700000500000\<rparr>"

section \<open>Properties\<close>

subsection \<open>timingSafeEqual\<close>

lemma timingSafeEqual_loop_step:
  "i < length a \<Longrightarrow>
   timingSafeEqual_loop a b i (res, seen) =
     timingSafeEqual_loop a b (Suc i)
       (res OR (ToInt32 (charCodeAt a i) XOR ToInt32 (charCodeAt b i)), seen @ [i])"
  by (subst timingSafeEqual_loop.simps) simp

lemma timingSafeEqual_loop_stop:
  "\<not> i < length a \<Longrightarrow> timingSafeEqual_loop a b i (res, seen) = (res, seen)"
  by (subst timingSafeEqual_loop.simps) simp

lemma word_xor_eq_0: "(x XOR y = 0) = (x = y)" for x y :: "'a::len word"
proof
  assume "x XOR y = 0"
  then have "(x XOR y) XOR y = y"
    by simp
  then show "x = y"
    by (simp add: xor.assoc)
qed simp

lemma ToInt32_xor_eq_0:
  "(ToInt32 (Some x) XOR ToInt32 (Some y) = 0) = (x = y)"
proof -
  have "inj (ucast :: 16 word \<Rightarrow> 32 word)"
    by (rule down_ucast_inj) (simp add: is_down)
  then have "((ucast x :: 32 word) = ucast y) = (x = y)"
    by (auto dest: injD)
  then show ?thesis
    by (simp add: ToInt32_def word_xor_eq_0)
qed

lemma timingSafeEqual_loop_seen:
  "i \<le> length a \<Longrightarrow> snd (timingSafeEqual_loop a b i (res, seen)) = seen @ [i..<length a]"
proof (induction a b i "(res, seen)" arbitrary: res seen rule: timingSafeEqual_loop.induct)
  case (1 a b i res seen)
  show ?case
  proof (cases "i < length a")
    case True
    let ?st = "(res OR (ToInt32 (charCodeAt a i) XOR ToInt32 (charCodeAt b i)), seen @ [i])"
    have "snd (timingSafeEqual_loop a b i (res, seen)) = snd (timingSafeEqual_loop a b (Suc i) ?st)"
      by (subst timingSafeEqual_loop_step [OF True]) (rule refl)
    also have "\<dots> = (seen @ [i]) @ [Suc i..<length a]"
      using "1.hyps" [OF True] True by simp
    also have "\<dots> = seen @ [i..<length a]"
      using True by (simp add: upt_conv_Cons)
    finally show ?thesis .
  next
    case False
    then show ?thesis
      using "1.prems" by (simp add: timingSafeEqual_loop_stop)
  qed
qed

lemma timingSafeEqual_loop_res:
  "length a = length b \<Longrightarrow> i \<le> length a \<Longrightarrow>
   (fst (timingSafeEqual_loop a b i (res, seen)) = 0) = (res = 0 \<and> drop i a = drop i b)"
proof (induction a b i "(res, seen)" arbitrary: res seen rule: timingSafeEqual_loop.induct)
  case (1 a b i res seen)
  show ?case
  proof (cases "i < length a")
    case True
    let ?d = "ToInt32 (charCodeAt a i) XOR ToInt32 (charCodeAt b i)"
    have d: "(?d = 0) = (a ! i = b ! i)"
      using True "1.prems" by (simp add: charCodeAt_def ToInt32_xor_eq_0)
    have "(fst (timingSafeEqual_loop a b i (res, seen)) = 0)
            = (fst (timingSafeEqual_loop a b (Suc i) (res OR ?d, seen @ [i])) = 0)"
      by (subst timingSafeEqual_loop_step [OF True]) (rule refl)
    also have "\<dots> = (res OR ?d = 0 \<and> drop (Suc i) a = drop (Suc i) b)"
      using "1.hyps" [OF True] True "1.prems" by simp
    also have "\<dots> = (res = 0 \<and> a ! i = b ! i \<and> drop (Suc i) a = drop (Suc i) b)"
      by (simp add: or_eq_0_iff d)
    also have "\<dots> = (res = 0 \<and> drop i a = drop i b)"
      using True "1.prems" by (simp add: Cons_nth_drop_Suc [symmetric])
    finally show ?thesis .
  next
    case False
    then show ?thesis
      using "1.prems" by (simp add: timingSafeEqual_loop_stop)
  qed
qed

lemma timingSafeEqual_iff: "timingSafeEqual a b = (a = b)"
proof (cases "length a = length b")
  case True
  obtain res seen where r: "timingSafeEqual_loop a b 0 (0, []) = (res, seen)"
    by (cases "timingSafeEqual_loop a b 0 (0, [])")
  have "(res = 0) = (a = b)"
    using timingSafeEqual_loop_res [OF True, of 0 0 "[]"] r by simp
  then show ?thesis
    using True r by (simp add: timingSafeEqual_def timingSafeEqual_run_def)
next
  case False
  then show ?thesis
    by (auto simp: timingSafeEqual_def timingSafeEqual_run_def)
qed

text \<open>
  C6. \<open>timingSafeEqual a b\<close> is true exactly when the two strings are equal. When the
  lengths differ it answers false and its loop reads no position; when they are equal the
  loop reads every position \<open>0, 1, ..., length a - 1\<close> once and in this order, whatever the
  contents, so also after the first difference.
\<close>

theorem timingSafeEqual_scans_all:
  "timingSafeEqual a b = (a = b) \<and>
   timingSafeEqual_run a b =
     (if length a = length b then (a = b, [0..<length a]) else (False, []))"
proof -
  have "timingSafeEqual_run a b = (a = b, [0..<length a])" if len: "length a = length b"
  proof -
    have "fst (timingSafeEqual_run a b) = (a = b)"
      using timingSafeEqual_iff [of a b] by (simp add: timingSafeEqual_def)
    moreover have "snd (timingSafeEqual_run a b) = [0..<length a]"
      using len timingSafeEqual_loop_seen [of 0 a b 0 "[]"]
      by (simp add: timingSafeEqual_run_def split_beta)
    ultimately show ?thesis
      by (simp add: prod_eq_iff)
  qed
  then show ?thesis
    by (simp add: timingSafeEqual_iff timingSafeEqual_run_def)
qed

subsection \<open>The canonical string\<close>

lemma split_on_not_Nil: "split_on sep xs \<noteq> []"
  by (induction xs) (simp_all add: Let_def)

lemma push_entries_filter:
  "push_entries acc ps = acc @ filter (\<lambda>e. fst e \<noteq> js ''hash'') ps"
  by (induction acc ps rule: push_entries.induct) simp_all

lemma compare_entries_less: "(compare_entries a b < 0) = (fst a < fst b)"
  by (simp add: compare_entries_def)

lemma mset_insert_sorted: "mset (insert_sorted cmp x ys) = add_mset x (mset ys)"
  by (induction ys) simp_all

lemma set_insert_sorted: "set (insert_sorted cmp x ys) = insert x (set ys)"
  by (induction ys) auto

lemma sorted_insert_sorted:
  "sorted (map fst ys) \<Longrightarrow> sorted (map fst (insert_sorted compare_entries x ys))"
  by (induction ys) (auto simp: compare_entries_less set_insert_sorted)

lemma filter_insert_sorted:
  "sorted (map fst ys) \<Longrightarrow>
   filter (\<lambda>e. fst e = k) (insert_sorted compare_entries x ys) =
     filter (\<lambda>e. fst e = k) ys @ (if fst x = k then [x] else [])"
proof (induction ys)
  case Nil
  then show ?case by simp
next
  case (Cons y ys)
  show ?case
  proof (cases "fst x < fst y")
    case True
    have "\<forall>e \<in> set (y # ys). fst x < fst e"
      using True Cons.prems by auto
    then have "fst x = k \<Longrightarrow> filter (\<lambda>e. fst e = k) (y # ys) = []"
      by (auto simp: filter_empty_conv)
    then show ?thesis
      using True by (auto simp: compare_entries_less)
  next
    case False
    then show ?thesis
      using Cons by (simp add: compare_entries_less)
  qed
qed

lemma array_sort_foldl:
  "sorted (map fst acc) \<Longrightarrow>
   mset (foldl (\<lambda>sorted x. insert_sorted compare_entries x sorted) acc xs) = mset acc + mset xs \<and>
   sorted (map fst (foldl (\<lambda>sorted x. insert_sorted compare_entries x sorted) acc xs)) \<and>
   filter (\<lambda>e. fst e = k) (foldl (\<lambda>sorted x. insert_sorted compare_entries x sorted) acc xs) =
     filter (\<lambda>e. fst e = k) acc @ filter (\<lambda>e. fst e = k) xs"
proof (induction xs arbitrary: acc)
  case Nil
  then show ?case by simp
next
  case (Cons x xs)
  have s: "sorted (map fst (insert_sorted compare_entries x acc))"
    using Cons.prems by (rule sorted_insert_sorted)
  show ?case
    using Cons.IH [OF s] Cons.prems
    by (simp add: mset_insert_sorted filter_insert_sorted)
qed

lemma mset_sorted_entries:
  "mset (sorted_entries ps) = mset (filter (\<lambda>e. fst e \<noteq> js ''hash'') ps)"
  using array_sort_foldl [of "[]"]
  by (simp add: sorted_entries_def array_sort_def push_entries_filter)

lemma sorted_sorted_entries: "sorted (map fst (sorted_entries ps))"
  using array_sort_foldl [of "[]"]
  by (simp add: sorted_entries_def array_sort_def)

lemma filter_sorted_entries:
  "filter (\<lambda>e. fst e = k) (sorted_entries ps) =
     filter (\<lambda>e. fst e = k) (filter (\<lambda>e. fst e \<noteq> js ''hash'') ps)"
  using array_sort_foldl [of "[]"]
  by (simp add: sorted_entries_def array_sort_def push_entries_filter)

lemma sorted_entries_sort_key:
  "sorted_entries ps = sort_key fst (filter (\<lambda>e. fst e \<noteq> js ''hash'') ps)"
proof (rule properties_for_sort_key [symmetric])
  show "mset (sorted_entries ps) = mset (filter (\<lambda>e. fst e \<noteq> js ''hash'') ps)"
    by (rule mset_sorted_entries)
  show "sorted (map fst (sorted_entries ps))"
    by (rule sorted_sorted_entries)
  show "filter (\<lambda>x. fst e = fst x) (sorted_entries ps) =
      filter (\<lambda>x. fst e = fst x) (filter (\<lambda>e. fst e \<noteq> js ''hash'') ps)" for e
    using filter_sorted_entries [of "fst e" ps] by (simp add: eq_commute)
qed

lemma same_order_same_sort:
  assumes "mset xs = mset ys"
    and "\<And>k. filter (\<lambda>e. fst e = k) xs = filter (\<lambda>e. fst e = k) ys"
  shows "sort_key fst xs = sort_key fst ys"
proof (rule properties_for_sort_key)
  show "mset (sort_key fst ys) = mset xs"
    using assms(1) by simp
  show "sorted (map fst (sort_key fst ys))"
    by simp
  show "filter (\<lambda>x. fst e = fst x) (sort_key fst ys) = filter (\<lambda>x. fst e = fst x) xs" for e
    using sort_key_stable [of fst "fst e" ys] assms(2) [of "fst e"] by (simp add: eq_commute)
qed

lemma filter_key_le1:
  "distinct (map fst xs) \<Longrightarrow> length (filter (\<lambda>e. fst e = k) xs) \<le> 1"
  by (induction xs) (auto simp: filter_empty_conv image_iff)

lemma distinct_keys_same_order:
  assumes "mset xs = mset ys" and "distinct (map fst xs)"
  shows "filter (\<lambda>e. fst e = k) xs = filter (\<lambda>e. fst e = k) ys"
proof -
  let ?P = "\<lambda>e. fst e = k"
  have m: "mset (filter ?P xs) = mset (filter ?P ys)"
    using assms(1) by (simp add: mset_filter)
  have "length (filter ?P xs) \<le> 1"
    using assms(2) by (rule filter_key_le1)
  then consider "filter ?P xs = []" | e where "filter ?P xs = [e]"
    by (cases "filter ?P xs" rule: list.exhaust) (auto simp: le_Suc_eq)
  then show ?thesis
  proof cases
    case 1
    then have "mset (filter ?P ys) = {#}"
      using m by (simp only: mset.simps)
    then have "filter ?P ys = []"
      by (simp only: mset_zero_iff)
    then show ?thesis
      using 1 by (simp only:)
  next
    case 2
    then have "mset (filter ?P ys) = {#e#}"
      using m by (simp only: mset.simps)
    then have "filter ?P ys = [e]"
      by (simp only: mset_single_iff)
    then show ?thesis
      using 2 by (simp only:)
  qed
qed

lemma params_get_first_value: "params_get ps name = first_value ps name"
  unfolding params_get_def first_value_def by (induction ps) auto

lemma insert_sorted_rel:
  assumes "list_all2 Q ys ys'" and "Q x x'" and same: "\<And>a b. Q a b \<Longrightarrow> fst a = fst b"
  shows "list_all2 Q (insert_sorted compare_entries x ys) (insert_sorted compare_entries x' ys')"
  using assms(1)
proof (induction rule: list_all2_induct)
  case Nil
  then show ?case using assms(2) by simp
next
  case (Cons y ys y' ys')
  have "fst x = fst x'" "fst y = fst y'"
    using same assms(2) Cons.hyps(1) by auto
  then show ?case
    using Cons assms(2) by (simp add: compare_entries_less)
qed

lemma array_sort_rel:
  assumes "list_all2 Q xs xs'" and "list_all2 Q acc acc'"
    and same: "\<And>a b. Q a b \<Longrightarrow> fst a = fst b"
  shows "list_all2 Q (foldl (\<lambda>sorted x. insert_sorted compare_entries x sorted) acc xs)
                     (foldl (\<lambda>sorted x. insert_sorted compare_entries x sorted) acc' xs')"
  using assms(1,2)
proof (induction arbitrary: acc acc' rule: list_all2_induct)
  case Nil
  then show ?case by simp
next
  case (Cons x xs x' xs')
  have "list_all2 Q (insert_sorted compare_entries x acc) (insert_sorted compare_entries x' acc')"
    using Cons.prems Cons.hyps(1) same by (rule insert_sorted_rel)
  then show ?case
    using Cons.IH by simp
qed

lemma filter_rel:
  assumes "list_all2 Q ps ps'" and "\<And>a b. Q a b \<Longrightarrow> P a = P b"
  shows "list_all2 Q (filter P ps) (filter P ps')"
  using assms(1)
proof (induction rule: list_all2_induct)
  case Nil
  then show ?case by simp
next
  case (Cons x xs y ys)
  then show ?case
    using assms(2) [of x y] by simp
qed

lemma sorted_entries_rel:
  assumes "list_all2 Q ps ps'" and same: "\<And>a b. Q a b \<Longrightarrow> fst a = fst b"
  shows "list_all2 Q (sorted_entries ps) (sorted_entries ps')"
proof -
  have "list_all2 Q (filter (\<lambda>e. fst e \<noteq> js ''hash'') ps) (filter (\<lambda>e. fst e \<noteq> js ''hash'') ps')"
    using assms(1) by (rule filter_rel) (simp add: same)
  then show ?thesis
    unfolding sorted_entries_def array_sort_def push_entries_filter append_Nil
    by (rule array_sort_rel) (simp_all add: same)
qed

lemma array_join_Cons:
  "array_join sep (x # xs) = x @ (if xs = [] then [] else sep @ array_join sep xs)"
  by (cases xs) simp_all

lemma array_join_same_shape_inj:
  assumes "list_all2 same_shape es es'"
    and "array_join sep (map render_entry es) = array_join sep (map render_entry es')"
  shows "es = es'"
  using assms
proof (induction rule: list_all2_induct)
  case Nil
  then show ?case by simp
next
  case (Cons e es e' es')
  have len: "length (render_entry e) = length (render_entry e')"
    using Cons.hyps(1) by (simp add: same_shape_def render_entry_def)
  have emp: "(es = []) = (es' = [])"
    using Cons.hyps(2) by (auto dest: list_all2_lengthD)
  have "render_entry e @ (if es = [] then [] else sep @ array_join sep (map render_entry es)) =
        render_entry e' @ (if es' = [] then [] else sep @ array_join sep (map render_entry es'))"
    using Cons.prems by (simp add: array_join_Cons)
  then have r: "render_entry e = render_entry e'"
    and t: "(if es = [] then [] else sep @ array_join sep (map render_entry es)) =
            (if es' = [] then [] else sep @ array_join sep (map render_entry es'))"
    using len by simp_all
  have "e = e'"
    using r Cons.hyps(1) by (simp add: render_entry_def same_shape_def prod_eq_iff)
  moreover have "es = es'"
  proof (cases "es = []")
    case True
    then show ?thesis using emp by simp
  next
    case False
    then have "array_join sep (map render_entry es) = array_join sep (map render_entry es')"
      using t emp by simp
    then show ?thesis
      by (rule Cons.IH)
  qed
  ultimately show ?case by simp
qed

lemma mset_update_neq:
  assumes "j < length ps" and "P (ps ! j)" and "P e" and "e \<noteq> ps ! j"
  shows "mset (filter P (ps[j := e])) \<noteq> mset (filter P ps)"
proof -
  let ?M = "filter_mset P (mset ps)"
  have in_M: "ps ! j \<in># ?M"
    using assms(1,2) by simp
  have "mset (filter P (ps[j := e])) = add_mset e (?M - {#ps ! j#})"
    using assms(1,2,3) by (simp add: mset_update)
  moreover have "add_mset e (?M - {#ps ! j#}) \<noteq> ?M"
  proof
    assume eq: "add_mset e (?M - {#ps ! j#}) = ?M"
    have pos: "0 < count ?M (ps ! j)"
      using in_M by (simp only: count_greater_zero_iff)
    have "count (add_mset e (?M - {#ps ! j#})) (ps ! j) = count ?M (ps ! j) - 1"
      using assms(4) by simp
    then have "count ?M (ps ! j) = count ?M (ps ! j) - 1"
      by (simp only: eq)
    then show False
      using pos by linarith
  qed
  ultimately show ?thesis
    by (simp only: mset_filter simp_thms)
qed

lemma map_of_update_other:
  "j < length ps \<Longrightarrow> fst (ps ! j) \<noteq> name \<Longrightarrow> fst e \<noteq> name \<Longrightarrow>
   map_of (ps[j := e]) name = map_of ps name"
proof (induction ps arbitrary: j)
  case Nil
  then show ?case by simp
next
  case (Cons p ps)
  then show ?case
    by (cases j) (auto simp: prod_eq_iff)
qed

lemma altered_value_changes_canonical_string:
  assumes "j < length ps" and "ps ! j = (k, v)" and "k \<noteq> js ''hash''"
    and "i < length v" and "c \<noteq> v ! i"
  shows "buildDataCheckString (ps[j := (k, mutate_char v i c)]) \<noteq> buildDataCheckString ps"
proof
  let ?e = "(k, mutate_char v i c)"
  let ?ps' = "ps[j := ?e]"
  assume eq: "buildDataCheckString ?ps' = buildDataCheckString ps"
  have ne: "?e \<noteq> ps ! j"
    using assms(2,4,5) by (auto simp: mutate_char_def dest: arg_cong [where f = "\<lambda>w. w ! i"])
  have "same_shape (ps ! j) ?e"
    using assms(2) by (simp add: same_shape_def mutate_char_def)
  moreover have "list_all2 same_shape ps ps"
    by (simp add: list_all2_same same_shape_def)
  ultimately have "list_all2 same_shape (ps[j := ps ! j]) ?ps'"
    by (rule list_all2_update_cong [rotated])
  then have "list_all2 same_shape ps ?ps'"
    by simp
  then have "list_all2 same_shape (sorted_entries ps) (sorted_entries ?ps')"
    by (rule sorted_entries_rel) (simp add: same_shape_def)
  then have "sorted_entries ps = sorted_entries ?ps'"
    using eq by (intro array_join_same_shape_inj [of _ _ "[0x0A]"])
      (simp_all add: buildDataCheckString_def)
  then have "mset (filter (\<lambda>e. fst e \<noteq> js ''hash'') ?ps') =
      mset (filter (\<lambda>e. fst e \<noteq> js ''hash'') ps)"
    using mset_sorted_entries [of ps] mset_sorted_entries [of ?ps'] by simp
  moreover have "mset (filter (\<lambda>e. fst e \<noteq> js ''hash'') ?ps') \<noteq>
      mset (filter (\<lambda>e. fst e \<noteq> js ''hash'') ps)"
    using assms(1) _ _ ne by (rule mset_update_neq) (simp_all add: assms(2,3))
  ultimately show False
    by simp
qed

subsection \<open>The stages of handleValidate\<close>

lemma handleValidate_verify:
  "carries request env botToken initData \<Longrightarrow>
   handleValidate P request env = verify P botToken initData"
  by (auto simp: carries_def handleValidate_def split: option.splits)

lemma handleValidate_cases:
  "(\<exists>botToken initData. carries request env botToken initData \<and>
       handleValidate P request env = verify P botToken initData) \<or>
   handleValidate P request env = reject ''SERVER_CONFIG_ERROR'' 500 \<or>
   handleValidate P request env = reject ''INVALID_JSON'' 400 \<or>
   handleValidate P request env = reject ''INIT_DATA_REQUIRED'' 400"
  by (auto simp: carries_def handleValidate_def split: option.splits jsvalue.splits)

lemma verify_no_hash:
  assumes "params_get (parseInitData P initData) (js ''hash'') = None \<or>
           params_get (parseInitData P initData) (js ''hash'') = Some []"
  shows "verify P botToken initData = reject ''HASH_MISSING'' 400"
  using assms by (auto simp: verify_def Let_def)

lemma verify_stale:
  assumes "params_get (parseInitData P initData) (js ''hash'') = Some h" and "h \<noteq> []"
    and "stale P (auth_date_of P (parseInitData P initData))"
  shows "verify P botToken initData = reject ''DATA_EXPIRED'' 401"
  using assms by (simp add: verify_def Let_def stale_def auth_date_of_def)

lemma array_join_empty: "array_join [] xs = concat xs"
  by (induction "[] :: jsstring" xs rule: array_join.induct) simp_all

lemma hex_digit_table: "\<forall>d \<in> set [0..<16]. hex_digit d = js ''0123456789abcdef'' ! d"
  by code_simp

lemma hex_digit_nth: "d < 16 \<Longrightarrow> hex_digit d = js ''0123456789abcdef'' ! d"
  using hex_digit_table by simp

lemma padStart_toString16:
  "padStart (toString16 b) 2 0x30 =
     [js ''0123456789abcdef'' ! (unat b div 16), js ''0123456789abcdef'' ! (unat b mod 16)]"
proof -
  have lt: "unat b < 256"
    using unsigned_less [of b, where ?'a = nat] by simp
  show ?thesis
  proof (cases "unat b < 16")
    case True
    then have "padStart (toString16 b) 2 0x30 = [0x30, hex_digit (unat b)]"
      by (simp add: padStart_def toString16_def)
    moreover have "js ''0123456789abcdef'' ! 0 = 0x30"
      by (simp add: js_def)
    ultimately show ?thesis
      using True by (simp add: hex_digit_nth)
  next
    case False
    then have "padStart (toString16 b) 2 0x30 =
        [hex_digit (unat b div 16), hex_digit (unat b mod 16)]"
      by (simp add: padStart_def toString16_def)
    moreover have "unat b div 16 < 16"
      using lt by simp
    ultimately show ?thesis
      by (simp add: hex_digit_nth)
  qed
qed

lemma toHex_lowercase_hex: "toHex bs = lowercase_hex bs"
  by (simp add: toHex_def lowercase_hex_def array_join_empty padStart_toString16)

lemma verify_fresh:
  assumes h: "params_get (parseInitData P initData) (js ''hash'') = Some h" "h \<noteq> []"
    and fresh: "\<not> stale P (auth_date_of P (parseInitData P initData))"
    and keys: "keys_importable P botToken"
  shows "verify P botToken initData =
     (if h = expected_signature P botToken (parseInitData P initData)
      then accept (parse_user P (parseInitData P initData))
             (auth_date_of P (parseInitData P initData))
      else reject ''INVALID_SIGNATURE'' 401)"
proof -
  have k: "telegramWebAppSecretKey P botToken = Inr (derived_key P botToken)"
    using keys
    by (simp add: keys_importable_def telegramWebAppSecretKey_def importKey_def
        encodeUtf8_def derived_key_def)
  have e: "hmacHex P (derived_key P botToken) d =
      Inr (lowercase_hex (HMAC_SHA256 P (derived_key P botToken) (TextEncoder_encode P d)))" for d
    using keys
    by (simp add: keys_importable_def hmacHex_def importKey_def encodeUtf8_def
        toHex_lowercase_hex)
  show ?thesis
    using h fresh
    by (simp add: verify_def Let_def stale_def auth_date_of_def k e expected_signature_def
        timingSafeEqual_iff)
qed

lemma verify_fresh_not_expired:
  assumes h: "params_get (parseInitData P initData) (js ''hash'') = Some h" "h \<noteq> []"
    and fresh: "\<not> stale P (auth_date_of P (parseInitData P initData))"
  shows "verify P botToken initData \<noteq> reject ''DATA_EXPIRED'' 401"
proof -
  have 1: "reject ''INVALID_SIGNATURE'' 401 \<noteq> reject ''DATA_EXPIRED'' 401"
    by (simp add: reject_def cors_def json_def js_def)
  have 2: "accept u a \<noteq> reject ''DATA_EXPIRED'' 401" for u a
    by (simp add: accept_def reject_def cors_def json_def)
  have 3: "Inl e \<noteq> reject ''DATA_EXPIRED'' 401" for e
    by (simp add: reject_def)
  show ?thesis
    using h fresh 1 2 3
    by (simp add: verify_def Let_def stale_def auth_date_of_def split: sum.splits)
qed

lemma verify_invalid_signature_iff:
  assumes h: "params_get (parseInitData P initData) (js ''hash'') = Some h" "h \<noteq> []"
  shows "(verify P botToken initData = reject ''INVALID_SIGNATURE'' 401) =
     (\<not> stale P (auth_date_of P (parseInitData P initData)) \<and> keys_importable P botToken \<and>
      h \<noteq> expected_signature P botToken (parseInitData P initData))"
proof -
  let ?ps = "parseInitData P initData"
  have 1: "reject ''DATA_EXPIRED'' 401 \<noteq> reject ''INVALID_SIGNATURE'' 401"
    by (simp add: reject_def cors_def json_def js_def)
  have 2: "accept u a \<noteq> reject ''INVALID_SIGNATURE'' 401" for u a
    by (simp add: accept_def reject_def cors_def json_def)
  show ?thesis
  proof (cases "stale P (auth_date_of P ?ps)")
    case True
    then show ?thesis
      using verify_stale [OF h True] 1 by simp
  next
    case fresh: False
    show ?thesis
    proof (cases "keys_importable P botToken")
      case True
      then show ?thesis
        using verify_fresh [OF h fresh True] fresh 2 by simp
    next
      case False
      then have "\<exists>e. verify P botToken initData = Inl e"
        using h fresh
        by (auto simp: verify_def Let_def stale_def auth_date_of_def keys_importable_def
            telegramWebAppSecretKey_def hmacHex_def importKey_def encodeUtf8_def derived_key_def)
      then show ?thesis
        using False by (auto simp: reject_def)
    qed
  qed
qed

lemma verify_cases:
  "verify P botToken initData = reject ''HASH_MISSING'' 400 \<or>
   verify P botToken initData = reject ''DATA_EXPIRED'' 401 \<or>
   verify P botToken initData = Inl DataError \<or>
   verify P botToken initData = reject ''INVALID_SIGNATURE'' 401 \<or>
   verify P botToken initData =
     accept (parse_user P (parseInitData P initData)) (auth_date_of P (parseInitData P initData))"
proof -
  have e: "x = DataError" for x :: exn
    by (cases x) simp
  show ?thesis
    by (auto simp: verify_def Let_def auth_date_of_def e split: option.splits sum.splits)
qed

lemma verify_hash_missing_iff:
  "(verify P botToken initData = reject ''HASH_MISSING'' 400) =
     (params_get (parseInitData P initData) (js ''hash'') = None \<or>
      params_get (parseInitData P initData) (js ''hash'') = Some [])"
proof -
  have 1: "reject ''DATA_EXPIRED'' 401 \<noteq> reject ''HASH_MISSING'' 400"
    "reject ''INVALID_SIGNATURE'' 401 \<noteq> reject ''HASH_MISSING'' 400"
    by (simp_all add: reject_def cors_def json_def)
  have 2: "accept u a \<noteq> reject ''HASH_MISSING'' 400" for u a
    by (simp add: accept_def reject_def cors_def json_def)
  have 3: "Inl e \<noteq> reject ''HASH_MISSING'' 400" for e
    by (simp add: reject_def)
  show ?thesis
  proof
    assume l: "verify P botToken initData = reject ''HASH_MISSING'' 400"
    show "params_get (parseInitData P initData) (js ''hash'') = None \<or>
        params_get (parseInitData P initData) (js ''hash'') = Some []"
    proof (rule ccontr)
      assume "\<not> ?thesis"
      then obtain h where h: "params_get (parseInitData P initData) (js ''hash'') = Some h"
          "h \<noteq> []"
        by auto
      then have "verify P botToken initData \<noteq> reject ''HASH_MISSING'' 400"
        using 1 2 3 by (simp add: verify_def Let_def split: sum.splits)
      then show False
        using l by simp
    qed
  qed (rule verify_no_hash)
qed

subsection \<open>The freshness window\<close>

text \<open>
  C4. Once the request carries an initData string with a hash, the worker answers
  DATA_EXPIRED exactly when \<^verbatim>\<open>now - authDate > 300\<close> as the worker computes it: \<open>now\<close>
  is the clock in whole seconds, \<open>authDate\<close> is the number read from the first
  \<^verbatim>\<open>auth_date\<close> value, read from \<^verbatim>\<open>"0"\<close> when the field is missing or empty, and the
  difference is the one of doubles. Whenever \<open>authDate\<close> is finite and the exact
  difference is a double, as it is for whole seconds, this is the comparison of the exact
  difference with 300. In particular an \<open>authDate\<close> of \<open>now - 300\<close> passes the test and
  one of \<open>now - 301\<close> is answered DATA_EXPIRED.
\<close>

theorem freshness_window:
  assumes "carries request env botToken initData"
    and "params_get (parseInitData P initData) (js ''hash'') = Some h" and "h \<noteq> []"
  shows "(handleValidate P request env = reject ''DATA_EXPIRED'' 401) =
           js_gt (js_sub (double_of_real P) (Fin (of_int (Date_now P div 1000)))
                    (Number P (or_default
                       (params_get (parseInitData P initData) (js ''auth_date'')) (js ''0''))))
                 (Fin 300) \<and>
         (params_get (parseInitData P initData) (js ''auth_date'') = None \<longrightarrow>
            (handleValidate P request env = reject ''DATA_EXPIRED'' 401) =
              js_gt (js_sub (double_of_real P) (Fin (of_int (Date_now P div 1000)))
                       (Number P (js ''0'')))
                    (Fin 300)) \<and>
         (Number P (or_default
            (params_get (parseInitData P initData) (js ''auth_date'')) (js ''0'')) = Fin a \<and>
          double_of_real P (of_int (Date_now P div 1000) - a)
            = Fin (of_int (Date_now P div 1000) - a) \<longrightarrow>
            (handleValidate P request env = reject ''DATA_EXPIRED'' 401) =
              (of_int (Date_now P div 1000) - a > 300)) \<and>
         (Number P (or_default
            (params_get (parseInitData P initData) (js ''auth_date'')) (js ''0''))
            = Fin (of_int (Date_now P div 1000) - 300) \<and>
          double_of_real P 300 = Fin 300 \<longrightarrow>
            handleValidate P request env \<noteq> reject ''DATA_EXPIRED'' 401) \<and>
         (Number P (or_default
            (params_get (parseInitData P initData) (js ''auth_date'')) (js ''0''))
            = Fin (of_int (Date_now P div 1000) - 301) \<and>
          double_of_real P 301 = Fin 301 \<longrightarrow>
            handleValidate P request env = reject ''DATA_EXPIRED'' 401)"
proof -
  let ?ps = "parseInitData P initData"
  let ?now = "of_int (Date_now P div 1000) :: real"
  let ?authDate = "Number P (or_default (params_get ?ps (js ''auth_date'')) (js ''0''))"
  let ?expired = "handleValidate P request env = reject ''DATA_EXPIRED'' 401"
  have v: "handleValidate P request env = verify P botToken initData"
    using assms(1) by (rule handleValidate_verify)
  have "(verify P botToken initData = reject ''DATA_EXPIRED'' 401) = stale P (auth_date_of P ?ps)"
    using verify_stale [OF assms(2,3)] verify_fresh_not_expired [OF assms(2,3)] by blast
  then have main: "?expired = js_gt (js_sub (double_of_real P) (Fin ?now) ?authDate) (Fin 300)"
    by (simp add: v stale_def auth_date_of_def VALID_AUTH_WINDOW_def)
  have missing: "?expired = js_gt (js_sub (double_of_real P) (Fin ?now) (Number P (js ''0''))) (Fin 300)"
    if "params_get ?ps (js ''auth_date'') = None"
    using main that by simp
  have exact: "?expired = (?now - a > 300)"
    if "?authDate = Fin a" and "double_of_real P (?now - a) = Fin (?now - a)"
    using main that by simp
  have at_limit: "\<not> ?expired"
    if "?authDate = Fin (?now - 300)" and "double_of_real P 300 = Fin 300"
    using main that by simp
  have past_limit: "?expired"
    if "?authDate = Fin (?now - 301)" and "double_of_real P 301 = Fin 301"
    using main that by simp
  show ?thesis
    using main missing exact at_limit past_limit by blast
qed

theorem freshness_window_witness:
  "carries (example_request payload_at_limit) example_env (js ''testtoken'') payload_at_limit \<and>
   params_get (parseInitData example_platform payload_at_limit) (js ''hash'') = Some (js ''9aff'') \<and>
   Number example_platform (or_default
     (params_get (parseInitData example_platform payload_at_limit) (js ''auth_date'')) (js ''0''))
     = Fin (of_int (Date_now example_platform div 1000) - 300) \<and>
   double_of_real example_platform 300 = Fin 300 \<and>
   handleValidate example_platform (example_request payload_at_limit) example_env
     \<noteq> reject ''DATA_EXPIRED'' 401 \<and>
   carries (example_request payload_past_limit) example_env (js ''testtoken'') payload_past_limit \<and>
   params_get (parseInitData example_platform payload_past_limit) (js ''hash'') = Some (js ''9a44'') \<and>
   Number example_platform (or_default
     (params_get (parseInitData example_platform payload_past_limit) (js ''auth_date'')) (js ''0''))
     = Fin (of_int (Date_now example_platform div 1000) - 301) \<and>
   double_of_real example_platform 301 = Fin 301 \<and>
   handleValidate example_platform (example_request payload_past_limit) example_env
     = reject ''DATA_EXPIRED'' 401"
proof -
  have c1: "carries (example_request payload_at_limit) example_env (js ''testtoken'') payload_at_limit"
    by code_simp
  have h1: "params_get (parseInitData example_platform payload_at_limit) (js ''hash'') = Some (js ''9aff'')"
    by code_simp
  have a1: "Number example_platform (or_default
      (params_get (parseInitData example_platform payload_at_limit) (js ''auth_date'')) (js ''0''))
      = Fin (of_int (Date_now example_platform div 1000) - 300)"
    by code_simp
  have c2: "carries (example_request payload_past_limit) example_env (js ''testtoken'') payload_past_limit"
    by code_simp
  have h2: "params_get (parseInitData example_platform payload_past_limit) (js ''hash'') = Some (js ''9a44'')"
    by code_simp
  have a2: "Number example_platform (or_default
      (params_get (parseInitData example_platform payload_past_limit) (js ''auth_date'')) (js ''0''))
      = Fin (of_int (Date_now example_platform div 1000) - 301)"
    by code_simp
  have n: "js ''9aff'' \<noteq> []" "js ''9a44'' \<noteq> []"
    by (simp_all add: js_def)
  have d: "double_of_real example_platform 300 = Fin 300"
    "double_of_real example_platform 301 = Fin 301"
    by (simp_all add: example_platform_def)
  have "handleValidate example_platform (example_request payload_at_limit) example_env
      \<noteq> reject ''DATA_EXPIRED'' 401"
    using freshness_window [OF c1 h1 n(1)] a1 d(1) by blast
  moreover have "handleValidate example_platform (example_request payload_past_limit) example_env
      = reject ''DATA_EXPIRED'' 401"
    using freshness_window [OF c2 h2 n(2)] a2 d(2) by blast
  ultimately show ?thesis
    using c1 h1 a1 d c2 h2 a2 by blast
qed

subsection \<open>The order of the freshness test and the signature comparison\<close>

text \<open>
  C3, as the specification states it, fails: \<open>payload_forged_stale\<close> carries a hash that is
  not the expected signature and an \<^verbatim>\<open>auth_date\<close> far older than the window, and the
  worker answers DATA_EXPIRED, not INVALID_SIGNATURE.
\<close>

theorem forged_stale_payload_is_expired:
  "params_get (parseInitData example_platform payload_forged_stale) (js ''hash'') = Some (js ''0000'') \<and>
   js ''0000'' \<noteq> expected_signature example_platform (js ''testtoken'')
                   (parseInitData example_platform payload_forged_stale) \<and>
   handleValidate example_platform (example_request payload_forged_stale) example_env
     = reject ''DATA_EXPIRED'' 401 \<and>
   handleValidate example_platform (example_request payload_forged_stale) example_env
     \<noteq> reject ''INVALID_SIGNATURE'' 401"
  by code_simp

text \<open>
  C3, amended. The worker tests the freshness before it compares the signature. For a
  request that carries an initData string with a hash: the answer is DATA_EXPIRED exactly
  when the \<^verbatim>\<open>auth_date\<close> is stale, whether or not the signature matches; the answer is
  INVALID_SIGNATURE exactly when the \<^verbatim>\<open>auth_date\<close> is not stale, the keys can be
  imported and the hash differs from the expected signature.
\<close>

theorem freshness_before_signature:
  assumes "carries request env botToken initData"
    and "params_get (parseInitData P initData) (js ''hash'') = Some h" and "h \<noteq> []"
  shows "(handleValidate P request env = reject ''DATA_EXPIRED'' 401) =
           stale P (auth_date_of P (parseInitData P initData)) \<and>
         (handleValidate P request env = reject ''INVALID_SIGNATURE'' 401) =
           (\<not> stale P (auth_date_of P (parseInitData P initData)) \<and>
            keys_importable P botToken \<and>
            h \<noteq> expected_signature P botToken (parseInitData P initData))"
proof -
  have v: "handleValidate P request env = verify P botToken initData"
    using assms(1) by (rule handleValidate_verify)
  have "(verify P botToken initData = reject ''DATA_EXPIRED'' 401) =
      stale P (auth_date_of P (parseInitData P initData))"
    using verify_stale [OF assms(2,3)] verify_fresh_not_expired [OF assms(2,3)] by blast
  then show ?thesis
    using verify_invalid_signature_iff [OF assms(2,3)] by (simp add: v)
qed

theorem freshness_before_signature_witness:
  "carries (example_request payload_forged_fresh) example_env (js ''testtoken'') payload_forged_fresh \<and>
   params_get (parseInitData example_platform payload_forged_fresh) (js ''hash'') = Some (js ''0000'') \<and>
   \<not> stale example_platform
       (auth_date_of example_platform (parseInitData example_platform payload_forged_fresh)) \<and>
   handleValidate example_platform (example_request payload_forged_fresh) example_env
     = reject ''INVALID_SIGNATURE'' 401 \<and>
   handleValidate example_platform (example_request payload_forged_fresh) example_env
     \<noteq> reject ''DATA_EXPIRED'' 401"
proof -
  have c: "carries (example_request payload_forged_fresh) example_env (js ''testtoken'')
      payload_forged_fresh"
    by code_simp
  have h: "params_get (parseInitData example_platform payload_forged_fresh) (js ''hash'')
      = Some (js ''0000'')"
    by code_simp
  have n: "js ''0000'' \<noteq> []"
    by (simp add: js_def)
  have f: "\<not> stale example_platform
      (auth_date_of example_platform (parseInitData example_platform payload_forged_fresh))"
    by code_simp
  have k: "keys_importable example_platform (js ''testtoken'')"
    by code_simp
  have d: "js ''0000'' \<noteq> expected_signature example_platform (js ''testtoken'')
      (parseInitData example_platform payload_forged_fresh)"
    by code_simp
  show ?thesis
    using freshness_before_signature [OF c h n] c h f k d by blast
qed

subsection \<open>Payloads of a trusted signer\<close>

text \<open>
  C1, as the specification states it, fails: \<open>payload_fresh\<close> carries the signature of a
  trusted signer for the secret \<^verbatim>\<open>testtoken\<close>, and 500 seconds after its \<^verbatim>\<open>auth_date\<close>
  the worker answers DATA_EXPIRED.
\<close>

theorem signed_stale_payload_is_expired:
  "carries (example_request payload_fresh) example_env (js ''testtoken'') payload_fresh \<and>
   params_get (parseInitData late_platform payload_fresh) (js ''hash'')
     = Some (expected_signature late_platform (js ''testtoken'')
               (parseInitData late_platform payload_fresh)) \<and>
   handleValidate late_platform (example_request payload_fresh) example_env
     = reject ''DATA_EXPIRED'' 401"
  by code_simp

text \<open>
  C1, amended. For every payload whose hash field is the signature of a trusted signer
  over its canonical string for the shared secret (the secret and the derived key being
  keys \<^verbatim>\<open>importKey\<close> takes, the signature not empty), and whose \<^verbatim>\<open>auth_date\<close> is not
  stale, the worker answers with the accepting response: \<^verbatim>\<open>ok: true\<close>, the claims of
  the user field and the \<^verbatim>\<open>auth_date\<close>.
\<close>

theorem signed_fresh_payload_accepted:
  assumes "carries request env botToken initData"
    and "keys_importable P botToken"
    and "params_get (parseInitData P initData) (js ''hash'')
           = Some (expected_signature P botToken (parseInitData P initData))"
    and "expected_signature P botToken (parseInitData P initData) \<noteq> []"
    and "\<not> stale P (auth_date_of P (parseInitData P initData))"
  shows "handleValidate P request env =
           accept (parse_user P (parseInitData P initData))
                  (auth_date_of P (parseInitData P initData))"
  using verify_fresh [OF assms(3,4,5,2)] handleValidate_verify [OF assms(1), of P] by simp

theorem signed_fresh_payload_accepted_witness:
  "carries (example_request payload_fresh) example_env (js ''testtoken'') payload_fresh \<and>
   keys_importable example_platform (js ''testtoken'') \<and>
   params_get (parseInitData example_platform payload_fresh) (js ''hash'')
     = Some (expected_signature example_platform (js ''testtoken'')
               (parseInitData example_platform payload_fresh)) \<and>
   \<not> stale example_platform
       (auth_date_of example_platform (parseInitData example_platform payload_fresh)) \<and>
   handleValidate example_platform (example_request payload_fresh) example_env
     = accept JNull (Fin 1700000000)"
proof -
  have c: "carries (example_request payload_fresh) example_env (js ''testtoken'') payload_fresh"
    by code_simp
  have k: "keys_importable example_platform (js ''testtoken'')"
    by code_simp
  have h: "params_get (parseInitData example_platform payload_fresh) (js ''hash'')
     = Some (expected_signature example_platform (js ''testtoken'')
               (parseInitData example_platform payload_fresh))"
    by code_simp
  have n: "expected_signature example_platform (js ''testtoken'')
      (parseInitData example_platform payload_fresh) \<noteq> []"
    by code_simp
  have f: "\<not> stale example_platform
       (auth_date_of example_platform (parseInitData example_platform payload_fresh))"
    by code_simp
  have u: "parse_user example_platform (parseInitData example_platform payload_fresh) = JNull"
    by code_simp
  have a: "auth_date_of example_platform (parseInitData example_platform payload_fresh)
      = Fin 1700000000"
    by code_simp
  show ?thesis
    using signed_fresh_payload_accepted [OF c k h n f] c k h f by (simp add: u a)
qed

subsection \<open>The canonical string and the order of the fields\<close>

text \<open>
  C5, as the specification states it, fails: \<open>payload_a12\<close> and \<open>payload_a21\<close> hold the same
  multiset of pairs beside the hash, and their canonical strings differ, because the sort
  compares keys only and keeps the pairs of one key in the order of the input.
\<close>

theorem repeated_key_order_changes_canonical_string:
  "mset (filter (\<lambda>e. fst e \<noteq> js ''hash'') (parseInitData example_platform payload_a12)) =
   mset (filter (\<lambda>e. fst e \<noteq> js ''hash'') (parseInitData example_platform payload_a21)) \<and>
   buildDataCheckString (parseInitData example_platform payload_a12) =
     js ''a=1'' @ [0x0A] @ js ''a=2'' \<and>
   buildDataCheckString (parseInitData example_platform payload_a21) =
     js ''a=2'' @ [0x0A] @ js ''a=1'' \<and>
   buildDataCheckString (parseInitData example_platform payload_a12) \<noteq>
     buildDataCheckString (parseInitData example_platform payload_a21)"
  by code_simp

text \<open>
  C5, amended. Two payloads that hold the same multiset of pairs beside the hash have the
  same canonical string, provided no key beside \<^verbatim>\<open>hash\<close> is repeated or, when keys are
  repeated, the pairs of each key stand in the same order in both payloads.
\<close>

theorem canonical_string_order_invariant:
  assumes "mset (filter (\<lambda>e. fst e \<noteq> js ''hash'') ps) =
           mset (filter (\<lambda>e. fst e \<noteq> js ''hash'') ps')"
    and "distinct (map fst (filter (\<lambda>e. fst e \<noteq> js ''hash'') ps)) \<or>
         (\<forall>k. filter (\<lambda>e. fst e = k) (filter (\<lambda>e. fst e \<noteq> js ''hash'') ps) =
              filter (\<lambda>e. fst e = k) (filter (\<lambda>e. fst e \<noteq> js ''hash'') ps'))"
  shows "buildDataCheckString ps = buildDataCheckString ps'"
proof -
  let ?xs = "filter (\<lambda>e. fst e \<noteq> js ''hash'') ps"
  let ?ys = "filter (\<lambda>e. fst e \<noteq> js ''hash'') ps'"
  have "filter (\<lambda>e. fst e = k) ?xs = filter (\<lambda>e. fst e = k) ?ys" for k
    using assms(2) distinct_keys_same_order [OF assms(1)] by blast
  then have "sort_key fst ?xs = sort_key fst ?ys"
    using assms(1) by (rule same_order_same_sort [rotated])
  then show ?thesis
    by (simp add: buildDataCheckString_def sorted_entries_sort_key)
qed

theorem canonical_string_order_invariant_witness:
  "mset (filter (\<lambda>e. fst e \<noteq> js ''hash'') (parseInitData example_platform payload_ba12)) =
   mset (filter (\<lambda>e. fst e \<noteq> js ''hash'') (parseInitData example_platform payload_a1b2)) \<and>
   parseInitData example_platform payload_ba12 \<noteq> parseInitData example_platform payload_a1b2 \<and>
   buildDataCheckString (parseInitData example_platform payload_ba12) =
     buildDataCheckString (parseInitData example_platform payload_a1b2) \<and>
   buildDataCheckString (parseInitData example_platform payload_ba12) =
     js ''a=1'' @ [0x0A] @ js ''a=2'' @ [0x0A] @ js ''b=1''"
proof -
  let ?ps = "parseInitData example_platform payload_ba12"
  let ?ps' = "parseInitData example_platform payload_a1b2"
  have p: "?ps = [(js ''b'', js ''1''), (js ''a'', js ''1''), (js ''a'', js ''2''),
                  (js ''hash'', js ''00'')]"
    by code_simp
  have p': "?ps' = [(js ''a'', js ''1''), (js ''hash'', js ''ff''), (js ''b'', js ''1''),
                    (js ''a'', js ''2'')]"
    by code_simp
  have m: "mset (filter (\<lambda>e. fst e \<noteq> js ''hash'') ?ps) =
           mset (filter (\<lambda>e. fst e \<noteq> js ''hash'') ?ps')"
    by code_simp
  have o: "\<forall>k. filter (\<lambda>e. fst e = k) (filter (\<lambda>e. fst e \<noteq> js ''hash'') ?ps) =
               filter (\<lambda>e. fst e = k) (filter (\<lambda>e. fst e \<noteq> js ''hash'') ?ps')"
    unfolding p p' by (simp add: js_def)
  have d: "?ps \<noteq> ?ps'"
    by code_simp
  have c: "buildDataCheckString ?ps = js ''a=1'' @ [0x0A] @ js ''a=2'' @ [0x0A] @ js ''b=1''"
    by code_simp
  show ?thesis
    using canonical_string_order_invariant [OF m disjI2 [OF o]] m d c by simp
qed

subsection \<open>Repeated keys\<close>

text \<open>
  C10. The canonical string renders the sorted entries, which are the pairs of the payload
  without the pairs keyed \<^verbatim>\<open>hash\<close>: every occurrence of every other key is kept, the
  entries are ordered by key, and the pairs of one key keep the order of the input. The
  worker itself reads \<^verbatim>\<open>hash\<close>, \<^verbatim>\<open>auth_date\<close> and \<^verbatim>\<open>user\<close> from the first pair with the
  key: its answer is the one computed from these first values and the canonical string.
\<close>

theorem repeated_keys_kept_first_value_used:
  assumes "carries request env botToken initData" and "keys_importable P botToken"
    and "ps = parseInitData P initData"
  shows "buildDataCheckString ps =
           array_join [0x0A] (map (\<lambda>e. fst e @ js ''='' @ snd e) (sorted_entries ps)) \<and>
         mset (sorted_entries ps) = mset (filter (\<lambda>e. fst e \<noteq> js ''hash'') ps) \<and>
         sorted (map fst (sorted_entries ps)) \<and>
         filter (\<lambda>e. fst e = k) (sorted_entries ps) =
           filter (\<lambda>e. fst e = k) (filter (\<lambda>e. fst e \<noteq> js ''hash'') ps) \<and>
         params_get ps name = first_value ps name \<and>
         handleValidate P request env =
           (case first_value ps (js ''hash'') of
              None \<Rightarrow> reject ''HASH_MISSING'' 400
            | Some h \<Rightarrow>
                if h = [] then reject ''HASH_MISSING'' 400
                else if stale P (Number P (or_default (first_value ps (js ''auth_date'')) (js ''0'')))
                then reject ''DATA_EXPIRED'' 401
                else if h \<noteq> expected_signature P botToken ps
                then reject ''INVALID_SIGNATURE'' 401
                else accept
                       (case first_value ps (js ''user'') of
                          None \<Rightarrow> JNull
                        | Some u \<Rightarrow>
                            if u = [] then JNull
                            else (case JSON_parse P u of None \<Rightarrow> JNull | Some v \<Rightarrow> v))
                       (Number P (or_default (first_value ps (js ''auth_date'')) (js ''0''))))"
proof -
  have v: "handleValidate P request env = verify P botToken initData"
    using assms(1) by (rule handleValidate_verify)
  have a: "auth_date_of P ps = Number P (or_default (first_value ps (js ''auth_date'')) (js ''0''))"
    by (simp add: auth_date_of_def params_get_first_value)
  have u: "parse_user P ps =
      (case first_value ps (js ''user'') of
         None \<Rightarrow> JNull
       | Some u \<Rightarrow> if u = [] then JNull
                   else (case JSON_parse P u of None \<Rightarrow> JNull | Some v \<Rightarrow> v))"
    by (simp add: parse_user_def params_get_first_value)
  have "verify P botToken initData =
      (case first_value ps (js ''hash'') of
         None \<Rightarrow> reject ''HASH_MISSING'' 400
       | Some h \<Rightarrow>
           if h = [] then reject ''HASH_MISSING'' 400
           else if stale P (auth_date_of P ps) then reject ''DATA_EXPIRED'' 401
           else if h \<noteq> expected_signature P botToken ps then reject ''INVALID_SIGNATURE'' 401
           else accept (parse_user P ps) (auth_date_of P ps))"
  proof (cases "first_value ps (js ''hash'')")
    case None
    then show ?thesis
      using verify_no_hash [of P initData botToken] assms(3)
      by (simp add: params_get_first_value)
  next
    case (Some h)
    then have g: "params_get (parseInitData P initData) (js ''hash'') = Some h"
      using assms(3) by (simp add: params_get_first_value)
    show ?thesis
    proof (cases "h = []")
      case True
      then show ?thesis
        using verify_no_hash [of P initData botToken] g Some by simp
    next
      case n: False
      show ?thesis
      proof (cases "stale P (auth_date_of P ps)")
        case True
        then show ?thesis
          using verify_stale [OF g n, of botToken] Some n assms(3) by simp
      next
        case False
        then show ?thesis
          using verify_fresh [OF g n _ assms(2)] Some n assms(3) by simp
      qed
    qed
  qed
  then have "handleValidate P request env =
      (case first_value ps (js ''hash'') of
         None \<Rightarrow> reject ''HASH_MISSING'' 400
       | Some h \<Rightarrow>
           if h = [] then reject ''HASH_MISSING'' 400
           else if stale P (Number P (or_default (first_value ps (js ''auth_date'')) (js ''0'')))
           then reject ''DATA_EXPIRED'' 401
           else if h \<noteq> expected_signature P botToken ps then reject ''INVALID_SIGNATURE'' 401
           else accept
                  (case first_value ps (js ''user'') of
                     None \<Rightarrow> JNull
                   | Some u \<Rightarrow>
                       if u = [] then JNull
                       else (case JSON_parse P u of None \<Rightarrow> JNull | Some v \<Rightarrow> v))
                  (Number P (or_default (first_value ps (js ''auth_date'')) (js ''0''))))"
    by (simp only: v a u)
  moreover have "render_entry = (\<lambda>e. fst e @ js ''='' @ snd e)"
    by (rule ext) (simp add: render_entry_def)
  then have "buildDataCheckString ps =
      array_join [0x0A] (map (\<lambda>e. fst e @ js ''='' @ snd e) (sorted_entries ps))"
    by (simp add: buildDataCheckString_def)
  ultimately show ?thesis
    using mset_sorted_entries [of ps] sorted_sorted_entries [of ps]
      filter_sorted_entries [of k ps] params_get_first_value [of ps name]
    by (simp only: simp_thms)
qed

theorem repeated_keys_kept_first_value_used_witness:
  "carries (example_request payload_repeated) example_env (js ''testtoken'') payload_repeated \<and>
   keys_importable example_platform (js ''testtoken'') \<and>
   parseInitData example_platform payload_repeated =
     [(js ''auth_date'', js ''1700000000''), (js ''hash'', js ''9a2a''),
      (js ''auth_date'', js ''5''), (js ''query_id'', js ''AA''), (js ''hash'', js ''zz'')] \<and>
   sorted_entries (parseInitData example_platform payload_repeated) =
     [(js ''auth_date'', js ''1700000000''), (js ''auth_date'', js ''5''),
      (js ''query_id'', js ''AA'')] \<and>
   buildDataCheckString (parseInitData example_platform payload_repeated) =
     js ''auth_date=1700000000'' @ [0x0A] @ js ''auth_date=5'' @ [0x0A] @ js ''query_id=AA'' \<and>
   handleValidate example_platform (example_request payload_repeated) example_env =
     accept JNull (Fin 1700000000)"
proof -
  let ?ps = "parseInitData example_platform payload_repeated"
  have c: "carries (example_request payload_repeated) example_env (js ''testtoken'')
      payload_repeated"
    by code_simp
  have k: "keys_importable example_platform (js ''testtoken'')"
    by code_simp
  have p: "?ps = [(js ''auth_date'', js ''1700000000''), (js ''hash'', js ''9a2a''),
      (js ''auth_date'', js ''5''), (js ''query_id'', js ''AA''), (js ''hash'', js ''zz'')]"
    by code_simp
  have e: "sorted_entries ?ps =
     [(js ''auth_date'', js ''1700000000''), (js ''auth_date'', js ''5''),
      (js ''query_id'', js ''AA'')]"
    by code_simp
  have h: "first_value ?ps (js ''hash'') = Some (js ''9a2a'')"
    by code_simp
  have x: "expected_signature example_platform (js ''testtoken'') ?ps = js ''9a2a''"
    by code_simp
  have n: "js ''9a2a'' \<noteq> []"
    by (simp add: js_def)
  have a: "Number example_platform (or_default (first_value ?ps (js ''auth_date'')) (js ''0''))
      = Fin 1700000000"
    by code_simp
  have f: "\<not> stale example_platform (Fin 1700000000)"
    by code_simp
  have u: "first_value ?ps (js ''user'') = None"
    by code_simp
  have "handleValidate example_platform (example_request payload_repeated) example_env =
      accept JNull (Fin 1700000000)"
    using repeated_keys_kept_first_value_used [OF c k refl, of k name for k name]
    by (simp add: h x n a f u)
  moreover have "buildDataCheckString ?ps =
      js ''auth_date=1700000000'' @ [0x0A] @ js ''auth_date=5'' @ [0x0A] @ js ''query_id=AA''"
    using repeated_keys_kept_first_value_used [OF c k refl, of k name for k name]
    by (simp add: e js_def)
  ultimately show ?thesis
    using c k p e by simp
qed

subsection \<open>Parsing and the missing hash\<close>

text \<open>
  C7, as the specification states it, fails: from \<open>payload_no_pairs\<close> no key-value pair can
  be read at all, and the worker does not fail with a malformed-payload error: the parsing
  gives the empty list and the answer is HASH_MISSING.
\<close>

theorem no_pairs_is_hash_missing:
  "carries (example_request payload_no_pairs) example_env (js ''testtoken'') payload_no_pairs \<and>
   parseInitData example_platform payload_no_pairs = [] \<and>
   handleValidate example_platform (example_request payload_no_pairs) example_env
     = reject ''HASH_MISSING'' 400"
  by code_simp

text \<open>
  C7, amended. The parsing never fails: every string gives a list of pairs, possibly empty,
  and the worker has no malformed-payload outcome. Whatever the request, its outcome is the
  accepting response, one of the six rejections SERVER_CONFIG_ERROR, INVALID_JSON,
  INIT_DATA_REQUIRED, HASH_MISSING, DATA_EXPIRED and INVALID_SIGNATURE, or the DataError
  of \<^verbatim>\<open>importKey\<close>. When the request carries an initData string, the answer is
  HASH_MISSING (status 400) exactly when the parsed pairs hold no \<^verbatim>\<open>hash\<close> or the
  first \<^verbatim>\<open>hash\<close> value is empty.
\<close>

theorem hash_missing_rejected:
  "(carries request env botToken initData \<longrightarrow>
      (handleValidate P request env = reject ''HASH_MISSING'' 400) =
        (params_get (parseInitData P initData) (js ''hash'') = None \<or>
         params_get (parseInitData P initData) (js ''hash'') = Some [])) \<and>
   ((\<exists>user authDate. handleValidate P request env = accept user authDate) \<or>
    handleValidate P request env = Inl DataError \<or>
    handleValidate P request env = reject ''SERVER_CONFIG_ERROR'' 500 \<or>
    handleValidate P request env = reject ''INVALID_JSON'' 400 \<or>
    handleValidate P request env = reject ''INIT_DATA_REQUIRED'' 400 \<or>
    handleValidate P request env = reject ''HASH_MISSING'' 400 \<or>
    handleValidate P request env = reject ''DATA_EXPIRED'' 401 \<or>
    handleValidate P request env = reject ''INVALID_SIGNATURE'' 401)"
proof
  show "carries request env botToken initData \<longrightarrow>
      (handleValidate P request env = reject ''HASH_MISSING'' 400) =
        (params_get (parseInitData P initData) (js ''hash'') = None \<or>
         params_get (parseInitData P initData) (js ''hash'') = Some [])"
    using handleValidate_verify [of request env botToken initData P]
      verify_hash_missing_iff [of P botToken initData]
    by simp
next
  show "(\<exists>user authDate. handleValidate P request env = accept user authDate) \<or>
    handleValidate P request env = Inl DataError \<or>
    handleValidate P request env = reject ''SERVER_CONFIG_ERROR'' 500 \<or>
    handleValidate P request env = reject ''INVALID_JSON'' 400 \<or>
    handleValidate P request env = reject ''INIT_DATA_REQUIRED'' 400 \<or>
    handleValidate P request env = reject ''HASH_MISSING'' 400 \<or>
    handleValidate P request env = reject ''DATA_EXPIRED'' 401 \<or>
    handleValidate P request env = reject ''INVALID_SIGNATURE'' 401"
    using handleValidate_cases [of request env P] verify_cases [of P]
    by metis
qed

theorem hash_missing_rejected_witness:
  "carries (example_request (js ''auth_date=1700000000&query_id=AA'')) example_env
     (js ''testtoken'') (js ''auth_date=1700000000&query_id=AA'') \<and>
   params_get (parseInitData example_platform (js ''auth_date=1700000000&query_id=AA''))
     (js ''hash'') = None \<and>
   handleValidate example_platform (example_request (js ''auth_date=1700000000&query_id=AA''))
     example_env = reject ''HASH_MISSING'' 400"
proof -
  have c: "carries (example_request (js ''auth_date=1700000000&query_id=AA'')) example_env
     (js ''testtoken'') (js ''auth_date=1700000000&query_id=AA'')"
    by code_simp
  have h: "params_get (parseInitData example_platform (js ''auth_date=1700000000&query_id=AA''))
     (js ''hash'') = None"
    by code_simp
  show ?thesis
    using hash_missing_rejected [of "example_request (js ''auth_date=1700000000&query_id=AA'')"
        example_env "js ''testtoken''" "js ''auth_date=1700000000&query_id=AA''" example_platform]
      c h
    by blast
qed

subsection \<open>The user field\<close>

text \<open>
  C8. For every payload that passes the freshness test and the signature comparison and
  whose (first, non-empty) user field is no JSON, the worker answers with status 200,
  \<^verbatim>\<open>ok: true\<close>, \<^verbatim>\<open>user: null\<close> and the \<^verbatim>\<open>auth_date\<close>: the failure of \<^verbatim>\<open>JSON.parse\<close>
  does not reject the payload.
\<close>

theorem malformed_user_json_gives_null_user:
  assumes "carries request env botToken initData"
    and "keys_importable P botToken"
    and "params_get (parseInitData P initData) (js ''hash'') = Some h" and "h \<noteq> []"
    and "\<not> stale P (auth_date_of P (parseInitData P initData))"
    and "h = expected_signature P botToken (parseInitData P initData)"
    and "params_get (parseInitData P initData) (js ''user'') = Some u"
    and "JSON_parse P u = None"
  shows "handleValidate P request env =
           Inr (cors (json (JObj [(js ''ok'', JBool True),
                                  (js ''user'', JNull),
                                  (js ''auth_date'',
                                   JNum (auth_date_of P (parseInitData P initData)))]) 200))"
proof -
  have "parse_user P (parseInitData P initData) = JNull"
    using assms(7,8) by (simp add: parse_user_def)
  then show ?thesis
    using handleValidate_verify [OF assms(1), of P] verify_fresh [OF assms(3,4,5,2)] assms(6)
    by (simp add: accept_def user_claims_def)
qed

theorem malformed_user_json_gives_null_user_witness:
  "carries (example_request payload_bad_user) example_env (js ''testtoken'') payload_bad_user \<and>
   keys_importable example_platform (js ''testtoken'') \<and>
   params_get (parseInitData example_platform payload_bad_user) (js ''hash'') = Some (js ''9a41'') \<and>
   \<not> stale example_platform
       (auth_date_of example_platform (parseInitData example_platform payload_bad_user)) \<and>
   js ''9a41'' = expected_signature example_platform (js ''testtoken'')
                   (parseInitData example_platform payload_bad_user) \<and>
   params_get (parseInitData example_platform payload_bad_user) (js ''user'') = Some (js ''{oops'') \<and>
   JSON_parse example_platform (js ''{oops'') = None \<and>
   handleValidate example_platform (example_request payload_bad_user) example_env =
     Inr (cors (json (JObj [(js ''ok'', JBool True),
                            (js ''user'', JNull),
                            (js ''auth_date'', JNum (Fin 1700000000))]) 200))"
proof -
  let ?ps = "parseInitData example_platform payload_bad_user"
  have c: "carries (example_request payload_bad_user) example_env (js ''testtoken'')
      payload_bad_user"
    by code_simp
  have k: "keys_importable example_platform (js ''testtoken'')"
    by code_simp
  have h: "params_get ?ps (js ''hash'') = Some (js ''9a41'')"
    by code_simp
  have n: "js ''9a41'' \<noteq> []"
    by (simp add: js_def)
  have f: "\<not> stale example_platform (auth_date_of example_platform ?ps)"
    by code_simp
  have x: "js ''9a41'' = expected_signature example_platform (js ''testtoken'') ?ps"
    by code_simp
  have u: "params_get ?ps (js ''user'') = Some (js ''{oops'')"
    by code_simp
  have j: "JSON_parse example_platform (js ''{oops'') = None"
    by code_simp
  have a: "auth_date_of example_platform ?ps = Fin 1700000000"
    by code_simp
  show ?thesis
    using malformed_user_json_gives_null_user [OF c k h n f x u j] c k h f x u j
    by (simp only: a simp_thms)
qed

text \<open>
  C9. Whenever the worker answers \<^verbatim>\<open>ok: true\<close> with a user that is not null, the request
  carried an initData string whose first user field parsed as JSON, and the user object of
  the answer has exactly the five properties \<^verbatim>\<open>id\<close>, \<^verbatim>\<open>first_name\<close>, \<^verbatim>\<open>last_name\<close>,
  \<^verbatim>\<open>username\<close> and \<^verbatim>\<open>language_code\<close>, each read from the parsed value (undefined when
  the parsed value has no such property). No other property of the parsed value is copied.
\<close>

theorem claims_are_allowlisted:
  assumes "handleValidate P request env = Inr r"
    and "get_prop (resp_body r) (js ''ok'') = JBool True"
    and "get_prop (resp_body r) (js ''user'') \<noteq> JNull"
  shows "\<exists>botToken initData raw user.
           carries request env botToken initData \<and>
           params_get (parseInitData P initData) (js ''user'') = Some raw \<and>
           JSON_parse P raw = Some user \<and>
           get_prop (resp_body r) (js ''user'') =
             JObj [(js ''id'', get_prop user (js ''id'')),
                   (js ''first_name'', get_prop user (js ''first_name'')),
                   (js ''last_name'', get_prop user (js ''last_name'')),
                   (js ''username'', get_prop user (js ''username'')),
                   (js ''language_code'', get_prop user (js ''language_code''))]"
proof -
  have rej: "reject code st = Inr r' \<Longrightarrow> get_prop (resp_body r') (js ''ok'') = JBool False"
    for code st r'
    by (auto simp: reject_def cors_def json_def)
  have acc: "accept u a = Inr r' \<Longrightarrow>
      get_prop (resp_body r') (js ''ok'') = JBool True \<and>
      get_prop (resp_body r') (js ''user'') = user_claims u" for u a r'
    by (auto simp: accept_def cors_def json_def js_def)
  have not_rej: "handleValidate P request env \<noteq> reject code st" for code st
    using rej [of code st r] assms(1,2) by auto
  then obtain botToken initData where c: "carries request env botToken initData"
    and v: "handleValidate P request env = verify P botToken initData"
    using handleValidate_cases [of request env P] by blast
  let ?ps = "parseInitData P initData"
  have "verify P botToken initData = accept (parse_user P ?ps) (auth_date_of P ?ps)"
    using verify_cases [of P botToken initData] not_rej assms(1) v by auto
  then have u: "get_prop (resp_body r) (js ''user'') = user_claims (parse_user P ?ps)"
    using acc [of "parse_user P ?ps" "auth_date_of P ?ps" r] assms(1) v by simp
  then have t: "truthy (parse_user P ?ps)"
    using assms(3) by (auto simp: user_claims_def split: if_splits)
  then obtain raw user where p: "params_get ?ps (js ''user'') = Some raw"
      "JSON_parse P raw = Some user" "parse_user P ?ps = user"
    by (auto simp: parse_user_def split: option.splits if_splits)
  show ?thesis
    using c p u t by (auto simp: user_claims_def)
qed

theorem claims_are_allowlisted_witness:
  "handleValidate example_platform (example_request payload_with_user) example_env =
     Inr (cors (json (JObj [(js ''ok'', JBool True),
        (js ''user'', JObj [(js ''id'', JNum (Fin 7)),
                            (js ''first_name'', JStr (js ''Ann'')),
                            (js ''last_name'', JUndefined),
                            (js ''username'', JUndefined),
                            (js ''language_code'', JUndefined)]),
        (js ''auth_date'', JNum (Fin 1700000000))]) 200)) \<and>
   (\<exists>botToken initData raw user.
      carries (example_request payload_with_user) example_env botToken initData \<and>
      params_get (parseInitData example_platform initData) (js ''user'') = Some raw \<and>
      JSON_parse example_platform raw = Some user \<and>
      JObj [(js ''id'', JNum (Fin 7)),
            (js ''first_name'', JStr (js ''Ann'')),
            (js ''last_name'', JUndefined),
            (js ''username'', JUndefined),
            (js ''language_code'', JUndefined)] =
        JObj [(js ''id'', get_prop user (js ''id'')),
              (js ''first_name'', get_prop user (js ''first_name'')),
              (js ''last_name'', get_prop user (js ''last_name'')),
              (js ''username'', get_prop user (js ''username'')),
              (js ''language_code'', get_prop user (js ''language_code''))])"
proof -
  let ?claims = "JObj [(js ''id'', JNum (Fin 7)),
                       (js ''first_name'', JStr (js ''Ann'')),
                       (js ''last_name'', JUndefined),
                       (js ''username'', JUndefined),
                       (js ''language_code'', JUndefined)]"
  let ?r = "cors (json (JObj [(js ''ok'', JBool True), (js ''user'', ?claims),
                              (js ''auth_date'', JNum (Fin 1700000000))]) 200)"
  have v: "handleValidate example_platform (example_request payload_with_user) example_env
      = Inr ?r"
    by code_simp
  have ok: "get_prop (resp_body ?r) (js ''ok'') = JBool True"
    by code_simp
  have u: "get_prop (resp_body ?r) (js ''user'') = ?claims"
    by code_simp
  have nn: "get_prop (resp_body ?r) (js ''user'') \<noteq> JNull"
    by (simp only: u) simp
  show ?thesis
    using claims_are_allowlisted [OF v ok nn] v by (simp only: u simp_thms)
qed

subsection \<open>Payloads altered after signing\<close>

text \<open>
  C2, as the specification states it, fails: \<open>payload_fresh\<close> is signed and accepted;
  replacing the first digit of its \<^verbatim>\<open>auth_date\<close> value gives \<open>payload_backdated\<close>, which is
  stale, and the worker answers DATA_EXPIRED, not INVALID_SIGNATURE.
\<close>

theorem backdated_payload_is_expired:
  "params_get (parseInitData example_platform payload_fresh) (js ''hash'')
     = Some (expected_signature example_platform (js ''testtoken'')
               (parseInitData example_platform payload_fresh)) \<and>
   handleValidate example_platform (example_request payload_fresh) example_env
     = accept JNull (Fin 1700000000) \<and>
   parseInitData example_platform payload_fresh ! 0 = (js ''auth_date'', js ''1700000000'') \<and>
   parseInitData example_platform payload_backdated =
     (parseInitData example_platform payload_fresh)
       [0 := (js ''auth_date'', mutate_char (js ''1700000000'') 0 0x30)] \<and>
   handleValidate example_platform (example_request payload_backdated) example_env
     = reject ''DATA_EXPIRED'' 401"
  by code_simp

text \<open>
  C2, amended. Take a payload signed by a trusted signer and replace one character of one
  value whose key is not \<^verbatim>\<open>hash\<close>. The canonical string changes. The worker answers
  DATA_EXPIRED when the \<^verbatim>\<open>auth_date\<close> of the altered payload is stale; otherwise it
  answers INVALID_SIGNATURE, unless the signature of the changed canonical string equals
  the signature of the original one: only then is the altered payload accepted. That the
  two signatures differ is a property of HMAC-SHA256 and of the UTF-8 encoding, not of
  the worker's code.
\<close>

theorem altered_value_rejected:
  assumes "carries request env botToken initData'"
    and "keys_importable P botToken"
    and "ps = parseInitData P initData"
    and "params_get ps (js ''hash'') = Some (expected_signature P botToken ps)"
    and "expected_signature P botToken ps \<noteq> []"
    and "j < length ps" and "ps ! j = (k, v)" and "k \<noteq> js ''hash''"
    and "i < length v" and "c \<noteq> v ! i"
    and "parseInitData P initData' = ps[j := (k, mutate_char v i c)]"
  shows "buildDataCheckString (parseInitData P initData') \<noteq> buildDataCheckString ps \<and>
         handleValidate P request env =
           (if stale P (auth_date_of P (parseInitData P initData'))
            then reject ''DATA_EXPIRED'' 401
            else if expected_signature P botToken (parseInitData P initData') =
                    expected_signature P botToken ps
            then accept (parse_user P (parseInitData P initData'))
                        (auth_date_of P (parseInitData P initData'))
            else reject ''INVALID_SIGNATURE'' 401)"
proof -
  let ?ps' = "parseInitData P initData'"
  let ?h = "expected_signature P botToken ps"
  have v: "handleValidate P request env = verify P botToken initData'"
    using assms(1) by (rule handleValidate_verify)
  have "map_of (ps[j := (k, mutate_char v i c)]) (js ''hash'') = map_of ps (js ''hash'')"
    using assms(6) by (rule map_of_update_other) (simp_all add: assms(7,8))
  then have h: "params_get ?ps' (js ''hash'') = Some ?h"
    using assms(4,11) by (simp add: params_get_def)
  have d: "buildDataCheckString ?ps' \<noteq> buildDataCheckString ps"
    using altered_value_changes_canonical_string [OF assms(6,7,8,9,10)] assms(11) by simp
  have "verify P botToken initData' =
      (if stale P (auth_date_of P ?ps') then reject ''DATA_EXPIRED'' 401
       else if expected_signature P botToken ?ps' = ?h
       then accept (parse_user P ?ps') (auth_date_of P ?ps')
       else reject ''INVALID_SIGNATURE'' 401)"
  proof (cases "stale P (auth_date_of P ?ps')")
    case True
    then show ?thesis
      using verify_stale [OF h assms(5)] by simp
  next
    case False
    then show ?thesis
      using verify_fresh [OF h assms(5) False assms(2)] by (simp add: eq_commute)
  qed
  then show ?thesis
    using d v by simp
qed

theorem altered_value_rejected_witness:
  "carries (example_request payload_altered) example_env (js ''testtoken'') payload_altered \<and>
   keys_importable example_platform (js ''testtoken'') \<and>
   params_get (parseInitData example_platform payload_fresh) (js ''hash'')
     = Some (expected_signature example_platform (js ''testtoken'')
               (parseInitData example_platform payload_fresh)) \<and>
   parseInitData example_platform payload_fresh ! 1 = (js ''query_id'', js ''AA'') \<and>
   parseInitData example_platform payload_altered =
     (parseInitData example_platform payload_fresh)
       [1 := (js ''query_id'', mutate_char (js ''AA'') 1 0x42)] \<and>
   buildDataCheckString (parseInitData example_platform payload_altered) \<noteq>
     buildDataCheckString (parseInitData example_platform payload_fresh) \<and>
   handleValidate example_platform (example_request payload_altered) example_env
     = reject ''INVALID_SIGNATURE'' 401"
proof -
  let ?ps = "parseInitData example_platform payload_fresh"
  let ?ps' = "parseInitData example_platform payload_altered"
  have c: "carries (example_request payload_altered) example_env (js ''testtoken'')
      payload_altered"
    by code_simp
  have k: "keys_importable example_platform (js ''testtoken'')"
    by code_simp
  have h: "params_get ?ps (js ''hash'') =
      Some (expected_signature example_platform (js ''testtoken'') ?ps)"
    by code_simp
  have n: "expected_signature example_platform (js ''testtoken'') ?ps \<noteq> []"
    by code_simp
  have j: "1 < length ?ps"
    by code_simp
  have e: "?ps ! 1 = (js ''query_id'', js ''AA'')"
    by code_simp
  have q: "js ''query_id'' \<noteq> js ''hash''"
    by (simp add: js_def)
  have i: "1 < length (js ''AA'')"
    by (simp add: js_def)
  have m: "(0x42 :: 16 word) \<noteq> js ''AA'' ! 1"
    by (simp add: js_def)
  have p: "?ps' = ?ps[1 := (js ''query_id'', mutate_char (js ''AA'') 1 0x42)]"
    by code_simp
  have f: "\<not> stale example_platform (auth_date_of example_platform ?ps')"
    by code_simp
  have x: "expected_signature example_platform (js ''testtoken'') ?ps' \<noteq>
      expected_signature example_platform (js ''testtoken'') ?ps"
    by code_simp
  show ?thesis
    using altered_value_rejected [OF c k refl h n j e q i m p] c k h e p f x
    by (simp only: simp_thms if_False)
qed

end
